theory Spec2Isabelle
  imports Main "HOL-Library.Log_Nat" "HOL-Library.Product_Lexorder"
begin

section \<open>Garmin sleep data: fetcher, flattener and relative-time normaliser\<close>

text \<open>
  The development embeds three Python modules: \<^verbatim>\<open>utils/garminclient.py\<close> (the date range
  and the bulk fetch loop), \<^verbatim>\<open>sleep/downloader.py\<close> (the flattener \<^verbatim>\<open>dto_to_df\<close>) and
  \<^verbatim>\<open>sleep/sleepplot.py\<close> (the relative-time functions, \<^verbatim>\<open>clean_data\<close> and the axis ticks).
  Exceptions are values of type \<open>error\<close>; a function that may raise returns
  \<open>error + 'a\<close> with \<open>Inl\<close> for the exception.
\<close>

subsection \<open>Floats\<close>

text \<open>
  A Python \<^verbatim>\<open>float\<close> is an IEEE 754 binary64 number. A finite float is modelled by the
  rational it denotes, and an operation on floats by the exact operation followed by
  \<open>fl\<close>, the rounding to the nearest binary64 number, ties to the even significand:
  53 bits of significand, and the exponent of the last bit not below -1074 (the
  subnormal range). Overflow to infinity is not modelled; every float computed below is
  smaller than \<open>2 ^ 63\<close> in magnitude.
\<close>

definition pow2 :: "int \<Rightarrow> rat" where
  "pow2 e = (if 0 \<le> e then 2 ^ nat e else 1 / 2 ^ nat (- e))"

text \<open>\<open>ilog2 q\<close> is the integer \<open>k\<close> with \<open>2 ^ k \<le> q < 2 ^ (k + 1)\<close>, for positive \<open>q\<close>.\<close>

definition ilog2 :: "rat \<Rightarrow> int" where
  "ilog2 q = (if 1 \<le> q then bitlen \<lfloor>q\<rfloor> - 1 else - bitlen (\<lceil>1 / q\<rceil> - 1))"

definition round_half_even :: "rat \<Rightarrow> int" where
  "round_half_even x =
     (let f = \<lfloor>x\<rfloor>; d = x - of_int f
      in if d < 1 / 2 then f else if 1 / 2 < d then f + 1 else if even f then f else f + 1)"

definition fl :: "rat \<Rightarrow> rat" where
  "fl q =
     (if q = 0 then 0
      else let e = max (ilog2 \<bar>q\<bar> - 52) (- 1074)
           in of_int (round_half_even (q / pow2 e)) * pow2 e)"

definition is_double :: "rat \<Rightarrow> bool" where
  "is_double q = (fl q = q \<and> \<bar>q\<bar> < pow2 1024)"

text \<open>\<^verbatim>\<open>math.modf\<close>: the integral part, rounded towards zero, and the rest; both are exact.\<close>

definition trunc :: "rat \<Rightarrow> int" where
  "trunc x = (if 0 \<le> x then \<lfloor>x\<rfloor> else \<lceil>x\<rceil>)"

definition frac_part :: "rat \<Rightarrow> rat" where
  "frac_part x = x - of_int (trunc x)"

subsection \<open>JSON payloads and dictionaries\<close>

text \<open>
  \<^verbatim>\<open>response.json()\<close> yields nested Python values. A \<^verbatim>\<open>dict\<close> is an association list in
  insertion order; \<open>JNull\<close> is \<^verbatim>\<open>None\<close> and \<open>JNaN\<close> the float \<^verbatim>\<open>nan\<close>.
\<close>

datatype json =
    JNull
  | JBool bool
  | JInt int
  | JFloat rat
  | JNaN
  | JStr string
  | JArr "json list"
  | JObj "(string \<times> json) list"

subsection \<open>Exceptions\<close>

text \<open>\<^verbatim>\<open>KeyError\<close> carries its argument: the key, or for pandas' \<^verbatim>\<open>dropna\<close> the list of missing labels.\<close>

datatype error =
    IndexError
  | KeyError json
  | AttributeError
  | TypeError
  | ValueError
  | OverflowError
  | NoSession
  | ServiceError string

definition ebind :: "error + 'a \<Rightarrow> ('a \<Rightarrow> error + 'b) \<Rightarrow> error + 'b" where
  "ebind m f = (case m of Inl e \<Rightarrow> Inl e | Inr x \<Rightarrow> f x)"

text \<open>A list comprehension whose element expression may raise: the first exception wins.\<close>

fun emap :: "('a \<Rightarrow> error + 'b) \<Rightarrow> 'a list \<Rightarrow> error + 'b list" where
  "emap f [] = Inr []"
| "emap f (x # xs) = ebind (f x) (\<lambda>y. ebind (emap f xs) (\<lambda>ys. Inr (y # ys)))"

type_synonym pydict = "(string \<times> json) list"

definition keys :: "pydict \<Rightarrow> string list" where
  "keys d = map fst d"

text \<open>\<^verbatim>\<open>d[k]\<close> raises \<^verbatim>\<open>KeyError\<close> on a missing key.\<close>

definition getitem :: "pydict \<Rightarrow> string \<Rightarrow> error + json" where
  "getitem d k = (case map_of d k of None \<Rightarrow> Inl (KeyError (JStr k)) | Some v \<Rightarrow> Inr v)"

text \<open>\<^verbatim>\<open>d.get(k)\<close> gives \<^verbatim>\<open>None\<close> on a missing key.\<close>

definition dict_get :: "pydict \<Rightarrow> string \<Rightarrow> json" where
  "dict_get d k = (case map_of d k of None \<Rightarrow> JNull | Some v \<Rightarrow> v)"

text \<open>\<^verbatim>\<open>d[k] = v\<close>: a new key goes last, an old key keeps its place.\<close>

fun setitem :: "(string \<times> 'v) list \<Rightarrow> string \<Rightarrow> 'v \<Rightarrow> (string \<times> 'v) list" where
  "setitem [] k v = [(k, v)]"
| "setitem ((k', v') # d) k v = (if k' = k then (k, v) # d else (k', v') # setitem d k v)"

text \<open>
  The method calls \<^verbatim>\<open>.keys()\<close> and \<^verbatim>\<open>.get(key)\<close> exist on a \<^verbatim>\<open>dict\<close> only: on any other
  value Python raises \<^verbatim>\<open>AttributeError\<close>.
\<close>

definition as_dict :: "json \<Rightarrow> error + pydict" where
  "as_dict v = (case v of JObj d \<Rightarrow> Inr d | _ \<Rightarrow> Inl AttributeError)"

subsection \<open>Data frames\<close>

text \<open>
  A data frame is its column labels and its rows, each row an index label and one cell
  per column. \<^verbatim>\<open>pd.isnull\<close> holds of \<^verbatim>\<open>None\<close> and of \<^verbatim>\<open>nan\<close>.
\<close>

record dataframe =
  columns :: "string list"
  rows :: "(nat \<times> json list) list"

definition isnull :: "json \<Rightarrow> bool" where
  "isnull v = (v = JNull \<or> v = JNaN)"

text \<open>
  pandas infers the type of a column from its cells. A column that holds only numbers and
  nulls (no string, list, dict or bool) becomes a column of floats when it holds a float,
  a \<^verbatim>\<open>nan\<close>, or both a \<^verbatim>\<open>None\<close> and an int: every \<^verbatim>\<open>None\<close> becomes \<^verbatim>\<open>nan\<close> and
  every int the nearest float. Any other column keeps its cells: ints stay ints, and in a
  column of objects \<^verbatim>\<open>None\<close> stays \<^verbatim>\<open>None\<close>. The ints are taken to fit 64 bits, as the
  numbers of the service do (\<open>int64_cell\<close>); for a larger int the outcome in pandas
  depends on the order of the cells, and the statements about cell values leave it out.
\<close>

definition plain_number :: "json \<Rightarrow> bool" where
  "plain_number v = (case v of JNull \<Rightarrow> True | JNaN \<Rightarrow> True | JInt n \<Rightarrow> True
                     | JFloat q \<Rightarrow> True | _ \<Rightarrow> False)"

definition is_int :: "json \<Rightarrow> bool" where
  "is_int v = (case v of JInt n \<Rightarrow> True | _ \<Rightarrow> False)"

definition is_float :: "json \<Rightarrow> bool" where
  "is_float v = (case v of JFloat q \<Rightarrow> True | JNaN \<Rightarrow> True | _ \<Rightarrow> False)"

definition int64_cell :: "json \<Rightarrow> bool" where
  "int64_cell v = (case v of JInt n \<Rightarrow> - (2 ^ 63) \<le> n \<and> n < 2 ^ 63 | _ \<Rightarrow> True)"

definition promoted :: "json list \<Rightarrow> bool" where
  "promoted c =
     (list_all plain_number c
      \<and> (list_ex is_float c \<or> (list_ex (\<lambda>v. v = JNull) c \<and> list_ex is_int c)))"

definition to_float64 :: "json \<Rightarrow> json" where
  "to_float64 v = (case v of JNull \<Rightarrow> JNaN | JInt n \<Rightarrow> JFloat (fl (of_int n)) | _ \<Rightarrow> v)"

definition infer_objects :: "json list \<Rightarrow> json list" where
  "infer_objects c = (if promoted c then map to_float64 c else c)"

text \<open>
  \<^verbatim>\<open>pd.DataFrame.from_dict\<close> of a dict of equally long lists: one column per key, its type
  inferred, row \<open>i\<close> labelled \<open>i\<close>. Lists of different lengths raise \<^verbatim>\<open>ValueError\<close>.
\<close>

definition row_at :: "(string \<times> json list) list \<Rightarrow> nat \<Rightarrow> json list" where
  "row_at cols i = map (\<lambda>(k, col). infer_objects col ! i) cols"

definition from_dict :: "(string \<times> json list) list \<Rightarrow> error + dataframe" where
  "from_dict cols =
     (case cols of
        [] \<Rightarrow> Inr \<lparr>columns = [], rows = []\<rparr>
      | (k, c) # rest \<Rightarrow>
          if list_all (\<lambda>(k', c'). length c' = length c) rest
          then Inr \<lparr>columns = map fst cols,
                    rows = map (\<lambda>i. (i, row_at cols i)) [0 ..< length c]\<rparr>
          else Inl ValueError)"

text \<open>
  \<^verbatim>\<open>df.dropna(subset=[name])\<close>: \<^verbatim>\<open>KeyError\<close> with the list of the missing labels when
  the frame has no such column, otherwise the rows whose cell in that column is not null,
  in order, labels kept.
\<close>

fun index_of :: "string \<Rightarrow> string list \<Rightarrow> nat option" where
  "index_of k [] = None"
| "index_of k (c # cs) = (if c = k then Some 0 else map_option Suc (index_of k cs))"

definition dropna :: "string \<Rightarrow> dataframe \<Rightarrow> error + dataframe" where
  "dropna name df =
     (case index_of name (columns df) of
        None \<Rightarrow> Inl (KeyError (JArr [JStr name]))
      | Some j \<Rightarrow> Inr (df\<lparr>rows := filter (\<lambda>(i, r). \<not> isnull (r ! j)) (rows df)\<rparr>))"

subsection \<open>The flattener: \<^verbatim>\<open>SleepDownloader.dto_to_df\<close>\<close>

text \<open>
  \<^verbatim>\<open>
  dto_data = {}
  for key in data[0]["dailySleepDTO"].keys():
      dto_data[key] = [d["dailySleepDTO"].get(key) for d in data]
  df = pd.DataFrame.from_dict(dto_data)
  df = df.dropna(subset=["id"])
  return df
  \<close>
\<close>

definition dto_of :: "pydict \<Rightarrow> error + pydict" where
  "dto_of d = ebind (getitem d ''dailySleepDTO'') as_dict"

definition dto_column :: "pydict list \<Rightarrow> string \<Rightarrow> error + json list" where
  "dto_column data key = emap (\<lambda>d. ebind (dto_of d) (\<lambda>dto. Inr (dict_get dto key))) data"

fun dto_loop ::
  "pydict list \<Rightarrow> string list \<Rightarrow> (string \<times> json list) list \<Rightarrow> error + (string \<times> json list) list"
where
  "dto_loop data [] dto_data = Inr dto_data"
| "dto_loop data (key # ks) dto_data =
     ebind (dto_column data key) (\<lambda>col. dto_loop data ks (setitem dto_data key col))"

definition dto_to_df :: "pydict list \<Rightarrow> error + dataframe" where
  "dto_to_df data =
     (case data of
        [] \<Rightarrow> Inl IndexError
      | d0 # _ \<Rightarrow>
          ebind (dto_of d0) (\<lambda>dto0.
          ebind (dto_loop data (keys dto0) []) (\<lambda>dto_data.
          ebind (from_dict dto_data) (dropna ''id''))))"

text \<open>
  Readings of a frame used in the statements below: the cells of the column \<open>k\<close> built
  from the payloads' \<^verbatim>\<open>dailySleepDTO\<close> dicts, the row of the payload at position \<open>i\<close>
  under the column labels \<open>ks\<close>, the cell of a row under a column label, and the
  payloads whose numbers fit 64 bits.
\<close>

definition dto_cells :: "pydict list \<Rightarrow> string \<Rightarrow> json list" where
  "dto_cells dtos k = infer_objects (map (\<lambda>dto. dict_get dto k) dtos)"

definition frame_row :: "string list \<Rightarrow> pydict list \<Rightarrow> nat \<Rightarrow> json list" where
  "frame_row ks dtos i = map (\<lambda>k. dto_cells dtos k ! i) ks"

definition cell_of :: "dataframe \<Rightarrow> json list \<Rightarrow> string \<Rightarrow> json option" where
  "cell_of df r k = map_option (\<lambda>c. r ! c) (index_of k (columns df))"

definition int64_dtos :: "pydict list \<Rightarrow> bool" where
  "int64_dtos dtos = list_all (\<lambda>dto. list_all (\<lambda>(k, v). int64_cell v) dto) dtos"

text \<open>
  Payloads for four days, used as concrete inputs below: a full record, a day with a null
  \<^verbatim>\<open>id\<close>, a record without \<^verbatim>\<open>calendarDate\<close> and a record without \<^verbatim>\<open>id\<close>.
\<close>

definition day_dtos :: "pydict list" where
  "day_dtos =
    [[(''id'', JInt 1), (''calendarDate'', JStr ''2024-01-01'')],
     [(''id'', JNull), (''calendarDate'', JStr ''2024-01-02'')],
     [(''id'', JInt 3)],
     [(''calendarDate'', JStr ''2024-01-04'')]]"

definition day_payloads :: "pydict list" where
  "day_payloads = map (\<lambda>dto. [(''dailySleepDTO'', JObj dto), (''restlessMomentsCount'', JInt 4)]) day_dtos"

subsection \<open>Decimal rendering\<close>

text \<open>\<^verbatim>\<open>str(n)\<close> of an integer, and the format \<^verbatim>\<open>{n:02d}\<close> (zero padding to width 2).\<close>

definition digit :: "nat \<Rightarrow> char" where
  "digit n = ''0123456789'' ! n"

function show_nat :: "nat \<Rightarrow> string" where
  "show_nat n = (if n < 10 then [digit n] else show_nat (n div 10) @ [digit (n mod 10)])"
  by pat_completeness auto
termination
  by (relation "measure id") auto

declare show_nat.simps [simp del]

definition show_int :: "int \<Rightarrow> string" where
  "show_int i = (if i < 0 then CHR ''-'' # show_nat (nat (- i)) else show_nat (nat i))"

definition fmt02 :: "int \<Rightarrow> string" where
  "fmt02 i = (let s = show_int i in if length s < 2 then CHR ''0'' # s else s)"

subsection \<open>Dates, times and durations\<close>

text \<open>
  A \<^verbatim>\<open>datetime.datetime\<close> (naive, as everywhere in the program) is a calendar day and a
  time of day: the day as its proleptic Gregorian ordinal (\<^verbatim>\<open>toordinal()\<close>, day 1 is
  0001-01-01), the time as the microsecond of the day. Python supports the years 1 to 9999,
  that is the ordinals 1 to 3652059, and raises \<^verbatim>\<open>OverflowError\<close> beyond. A
  \<^verbatim>\<open>datetime.timedelta\<close> is a whole number of microseconds, between -999999999 days and
  just under 1000000000 days.
\<close>

record datetime =
  ordinal :: int
  usec :: int

type_synonym timedelta = int

definition DAY :: int where
  "DAY = 86400000000"

definition MAXORDINAL :: int where
  "MAXORDINAL = 3652059"

definition valid_datetime :: "datetime \<Rightarrow> bool" where
  "valid_datetime dt =
     (1 \<le> ordinal dt \<and> ordinal dt \<le> MAXORDINAL \<and> 0 \<le> usec dt \<and> usec dt < DAY)"

definition to_us :: "datetime \<Rightarrow> int" where
  "to_us dt = ordinal dt * DAY + usec dt"

definition of_us :: "int \<Rightarrow> error + datetime" where
  "of_us t =
     (if 1 \<le> t div DAY \<and> t div DAY \<le> MAXORDINAL
      then Inr \<lparr>ordinal = t div DAY, usec = t mod DAY\<rparr>
      else Inl OverflowError)"

text \<open>\<^verbatim>\<open>dt + td\<close>, \<^verbatim>\<open>dt - td\<close> and \<^verbatim>\<open>a - b\<close>; \<^verbatim>\<open>td.days\<close> rounds towards minus infinity.\<close>

definition dt_add :: "datetime \<Rightarrow> timedelta \<Rightarrow> error + datetime" where
  "dt_add dt td = of_us (to_us dt + td)"

definition dt_sub :: "datetime \<Rightarrow> timedelta \<Rightarrow> error + datetime" where
  "dt_sub dt td = of_us (to_us dt - td)"

definition dt_diff :: "datetime \<Rightarrow> datetime \<Rightarrow> timedelta" where
  "dt_diff a b = to_us a - to_us b"

definition days :: "timedelta \<Rightarrow> int" where
  "days td = td div DAY"

definition timedelta_days :: "int \<Rightarrow> timedelta" where
  "timedelta_days n = n * DAY"

text \<open>\<^verbatim>\<open>datetime.combine(date, datetime.min.time())\<close>: midnight of the day of \<open>date\<close>.\<close>

definition midnight :: "datetime \<Rightarrow> datetime" where
  "midnight date = \<lparr>ordinal = ordinal date, usec = 0\<rparr>"

subsubsection \<open>The civil calendar\<close>

text \<open>
  The conversions between ordinals and year, month, day follow CPython's
  \<^verbatim>\<open>_ymd2ord\<close> and \<^verbatim>\<open>_ord2ymd\<close>.
\<close>

definition is_leap :: "int \<Rightarrow> bool" where
  "is_leap y = (y mod 4 = 0 \<and> (y mod 100 \<noteq> 0 \<or> y mod 400 = 0))"

definition days_before_year :: "int \<Rightarrow> int" where
  "days_before_year y = (y - 1) * 365 + (y - 1) div 4 - (y - 1) div 100 + (y - 1) div 400"

definition days_in_month_table :: "int list" where
  "days_in_month_table = [31, 28, 31, 30, 31, 30, 31, 31, 30, 31, 30, 31]"

definition days_before_month_table :: "int list" where
  "days_before_month_table = [0, 31, 59, 90, 120, 151, 181, 212, 243, 273, 304, 334]"

definition days_before_month :: "int \<Rightarrow> int \<Rightarrow> int" where
  "days_before_month y m =
     days_before_month_table ! nat (m - 1) + (if 2 < m \<and> is_leap y then 1 else 0)"

definition ymd2ord :: "int \<Rightarrow> int \<Rightarrow> int \<Rightarrow> int" where
  "ymd2ord y m d = days_before_year y + days_before_month y m + d"

definition ord2ymd :: "int \<Rightarrow> int \<times> int \<times> int" where
  "ord2ymd n0 =
     (let n = n0 - 1;
          n400 = n div 146097; n = n mod 146097;
          n100 = n div 36524; n = n mod 36524;
          n4 = n div 1461; n = n mod 1461;
          n1 = n div 365; n = n mod 365;
          year = n400 * 400 + 1 + n100 * 100 + n4 * 4 + n1
      in if n1 = 4 \<or> n100 = 4 then (year - 1, 12, 31)
         else
           let leapyear = (n1 = 3 \<and> (n4 \<noteq> 24 \<or> n100 = 3));
               month = (n + 50) div 32;
               preceding = days_before_month_table ! nat (month - 1)
                           + (if 2 < month \<and> leapyear then 1 else 0)
           in if n < preceding
              then (year, month - 1,
                    n - (preceding - (days_in_month_table ! nat (month - 2)
                                      + (if month - 1 = 2 \<and> leapyear then 1 else 0))) + 1)
              else (year, month, n - preceding + 1))"

text \<open>The constructor \<^verbatim>\<open>datetime(year, month, day, hour, minute, second, microsecond)\<close>.\<close>

definition mk_datetime :: "int \<Rightarrow> int \<Rightarrow> int \<Rightarrow> int \<Rightarrow> int \<Rightarrow> int \<Rightarrow> int \<Rightarrow> datetime" where
  "mk_datetime y m d hh mm ss us =
     \<lparr>ordinal = ymd2ord y m d, usec = ((hh * 60 + mm) * 60 + ss) * 1000000 + us\<rparr>"

definition mk_date :: "int \<Rightarrow> int \<Rightarrow> int \<Rightarrow> datetime" where
  "mk_date y m d = mk_datetime y m d 0 0 0 0"

text \<open>
  \<^verbatim>\<open>strftime("%Y-%m-%d")\<close>. The C library pads the month and the day to two digits; the
  year is printed as it is (glibc), which is four digits from the year 1000 on.
\<close>

definition strftime_ymd :: "datetime \<Rightarrow> string" where
  "strftime_ymd dt =
     (case ord2ymd (ordinal dt) of
        (y, m, d) \<Rightarrow> show_int y @ ''-'' @ fmt02 m @ ''-'' @ fmt02 d)"

text \<open>\<^verbatim>\<open>strftime("%I:%M %p")\<close>: the hour on the 12-hour clock, the minute, AM or PM.\<close>

definition hour :: "datetime \<Rightarrow> int" where
  "hour dt = usec dt div 3600000000"

definition minute :: "datetime \<Rightarrow> int" where
  "minute dt = usec dt div 60000000 mod 60"

definition datetime_to_12hr :: "datetime \<Rightarrow> string" where
  "datetime_to_12hr dt =
     fmt02 (if hour dt mod 12 = 0 then 12 else hour dt mod 12) @ '':'' @ fmt02 (minute dt)
       @ '' '' @ (if hour dt < 12 then ''AM'' else ''PM'')"

subsection \<open>The client: \<^verbatim>\<open>utils/garminclient.py\<close>\<close>

text \<open>
  \<^verbatim>\<open>
  def daterange(start_date, end_date):
      end_date += timedelta(days=1)
      for n in range(int((end_date - start_date).days)):
          yield start_date + timedelta(n)
  \<close>
  The generator runs lazily: the first \<^verbatim>\<open>next\<close> adds the day (and may raise), and each
  later step computes one date (and may raise). The result is the outcome of the first
  step and, when that succeeds, one outcome per later step.
\<close>

definition daterange :: "datetime \<Rightarrow> datetime \<Rightarrow> error + (error + datetime) list" where
  "daterange start_date end_date =
     ebind (dt_add end_date (timedelta_days 1)) (\<lambda>end_date'.
       Inr (map (\<lambda>n. dt_add start_date (timedelta_days (int n)))
              [0 ..< nat (days (dt_diff end_date' start_date))]))"

text \<open>
  The remote service is a function from the requested URL to the decoded JSON body or the
  exception of the request. The client holds its \<^verbatim>\<open>uuid\<close>, whether a session is open, and
  (for the statements below) the URLs requested so far, oldest first. The decorator
  \<^verbatim>\<open>require_session\<close> of the garminexport library raises when no session is open.
\<close>

type_synonym service = "string \<Rightarrow> error + json"

record gclient =
  uuid :: string
  session :: bool
  requested :: "string list"

text \<open>A date argument is a \<^verbatim>\<open>datetime\<close> or a \<^verbatim>\<open>str\<close>.\<close>

datatype date_arg = AsDatetime datetime | AsStr string

definition WELLNESS_URL :: string where
  "WELLNESS_URL = ''https://connect.garmin.com/modern/proxy/wellness-service/wellness''"

definition sleep_url :: "string \<Rightarrow> string \<Rightarrow> int \<Rightarrow> string" where
  "sleep_url u date sleep_buffer_minutes =
     WELLNESS_URL @ ''/dailySleepData/'' @ u @ ''?date='' @ date
       @ ''&nonSleepBufferMinutes='' @ show_int sleep_buffer_minutes"

text \<open>
  \<^verbatim>\<open>
  def get_sleep_data(self, date, sleep_buffer_minutes=60):
      if isinstance(date, datetime):
          date = date.strftime("%Y-%m-%d")
      url = f"{self.WELLNESS_URL}/dailySleepData/{self.uuid}?date={date}&nonSleepBufferMinutes={sleep_buffer_minutes}"
      response = self.session.get(url)
      return response.json()
  \<close>
\<close>

definition get_sleep_data ::
  "service \<Rightarrow> gclient \<Rightarrow> date_arg \<Rightarrow> int \<Rightarrow> (error + json) \<times> gclient" where
  "get_sleep_data svc c date sleep_buffer_minutes =
     (if \<not> session c then (Inl NoSession, c)
      else
        let date' = (case date of AsDatetime dt \<Rightarrow> strftime_ymd dt | AsStr s \<Rightarrow> s);
            url = sleep_url (uuid c) date' sleep_buffer_minutes
        in (svc url, c\<lparr>requested := requested c @ [url]\<rparr>))"

text \<open>
  \<^verbatim>\<open>
  def get_bulk_sleep_data(self, start, end, sleep_buffer_minutes=60):
      if isinstance(start, str):
          start = datetime.fromisoformat(start)
      if isinstance(end, str):
          end = datetime.fromisoformat(end)
      data = []
      for date in daterange(start, end):
          data.append(self.get_sleep_data(date, sleep_buffer_minutes))
      return data
  \<close>
  The parser \<^verbatim>\<open>datetime.fromisoformat\<close> is a parameter of the model.
\<close>

definition resolve :: "(string \<Rightarrow> error + datetime) \<Rightarrow> date_arg \<Rightarrow> error + datetime" where
  "resolve fromisoformat a = (case a of AsDatetime dt \<Rightarrow> Inr dt | AsStr s \<Rightarrow> fromisoformat s)"

fun bulk_loop ::
  "service \<Rightarrow> int \<Rightarrow> (error + datetime) list \<Rightarrow> json list \<Rightarrow> gclient
    \<Rightarrow> (error + json list) \<times> gclient"
where
  "bulk_loop svc buf [] data c = (Inr data, c)"
| "bulk_loop svc buf (Inl e # ds) data c = (Inl e, c)"
| "bulk_loop svc buf (Inr date # ds) data c =
     (case get_sleep_data svc c (AsDatetime date) buf of
        (Inl e, c') \<Rightarrow> (Inl e, c')
      | (Inr r, c') \<Rightarrow> bulk_loop svc buf ds (data @ [r]) c')"

definition get_bulk_sleep_data ::
  "(string \<Rightarrow> error + datetime) \<Rightarrow> service \<Rightarrow> gclient \<Rightarrow> date_arg \<Rightarrow> date_arg \<Rightarrow> int
    \<Rightarrow> (error + json list) \<times> gclient" where
  "get_bulk_sleep_data fromisoformat svc c start end sleep_buffer_minutes =
     (if \<not> session c then (Inl NoSession, c)
      else case resolve fromisoformat start of
        Inl e \<Rightarrow> (Inl e, c)
      | Inr start' \<Rightarrow>
         (case resolve fromisoformat end of
            Inl e \<Rightarrow> (Inl e, c)
          | Inr end' \<Rightarrow>
             (case daterange start' end' of
                Inl e \<Rightarrow> (Inl e, c)
              | Inr dates \<Rightarrow> bulk_loop svc sleep_buffer_minutes dates [] c)))"

text \<open>
  For the statements: the URL of the request for the day with ordinal \<open>n\<close>, and a service
  that answers every request with the URL it was sent.
\<close>

definition day_url :: "gclient \<Rightarrow> int \<Rightarrow> int \<Rightarrow> string" where
  "day_url c buf n = sleep_url (uuid c) (strftime_ymd \<lparr>ordinal = n, usec = 0\<rparr>) buf"

definition echo_service :: service where
  "echo_service url = Inr (JStr (drop 81 url))"

text \<open>
  The last day a range reaches: the day of \<open>e\<close>, or the day before when the time of day of
  \<open>e\<close> is earlier than that of \<open>s\<close>.
\<close>

definition last_day :: "datetime \<Rightarrow> datetime \<Rightarrow> int" where
  "last_day s e = (if usec s \<le> usec e then ordinal e else ordinal e - 1)"

definition client0 :: gclient where
  "client0 = \<lparr>uuid = ''u'', session = True, requested = []\<rparr>"

definition no_parser :: "string \<Rightarrow> error + datetime" where
  "no_parser s = Inl ValueError"

subsection \<open>Numbers of seconds\<close>

text \<open>
  A number passed where the program expects seconds: \<^verbatim>\<open>None\<close>, the float \<^verbatim>\<open>nan\<close>, an
  \<^verbatim>\<open>int\<close> or a finite \<^verbatim>\<open>float\<close>. \<^verbatim>\<open>pd.isnull\<close> holds of the first two.
\<close>

datatype number = PyNone | PyNaN | PyInt int | PyFloat rat

definition isnull_number :: "number \<Rightarrow> bool" where
  "isnull_number s = (s = PyNone \<or> s = PyNaN)"

text \<open>
  \<^verbatim>\<open>timedelta.total_seconds()\<close> is the true division of the microseconds by \<open>10 ^ 6\<close>,
  correctly rounded.
\<close>

definition total_seconds :: "timedelta \<Rightarrow> rat" where
  "total_seconds td = fl (of_int td / 1000000)"

text \<open>
  \<^verbatim>\<open>timedelta(seconds=s)\<close>. An \<^verbatim>\<open>int\<close> is taken exactly. A \<^verbatim>\<open>float\<close> is split by
  \<^verbatim>\<open>modf\<close>; the whole seconds are taken exactly, the rest is multiplied by \<open>10 ^ 6\<close> in
  float arithmetic and rounded to the nearest microsecond, ties to even. \<^verbatim>\<open>None\<close> is a
  \<^verbatim>\<open>TypeError\<close>, \<^verbatim>\<open>nan\<close> a \<^verbatim>\<open>ValueError\<close>, and a result outside the range of
  \<^verbatim>\<open>timedelta\<close> an \<^verbatim>\<open>OverflowError\<close>.
\<close>

definition check_timedelta :: "int \<Rightarrow> error + timedelta" where
  "check_timedelta us =
     (if - 999999999 * DAY \<le> us \<and> us < 1000000000 * DAY then Inr us else Inl OverflowError)"

definition timedelta_seconds :: "number \<Rightarrow> error + timedelta" where
  "timedelta_seconds s =
     (case s of
        PyNone \<Rightarrow> Inl TypeError
      | PyNaN \<Rightarrow> Inl ValueError
      | PyInt n \<Rightarrow> check_timedelta (n * 1000000)
      | PyFloat x \<Rightarrow>
          check_timedelta
            (trunc x * 1000000 + round_half_even (fl (1000000 * frac_part x))))"

text \<open>\<^verbatim>\<open>s + 86400\<close> for a number \<open>s\<close>.\<close>

definition plus_day :: "number \<Rightarrow> number" where
  "plus_day s =
     (case s of
        PyInt n \<Rightarrow> PyInt (n + 86400)
      | PyFloat x \<Rightarrow> PyFloat (fl (x + 86400))
      | _ \<Rightarrow> s)"

subsection \<open>The relative-time functions of \<^verbatim>\<open>SleepPlot\<close>\<close>

text \<open>
  \<^verbatim>\<open>
  def make_relative(dt, date):
      midnight = datetime.datetime.combine(date, datetime.datetime.min.time())
      difference = dt - midnight
      return -difference.total_seconds()
  \<close>
  The result is a float, given by its value.
\<close>

definition make_relative :: "datetime \<Rightarrow> datetime \<Rightarrow> rat" where
  "make_relative dt date = - total_seconds (dt_diff dt (midnight date))"

text \<open>
  \<^verbatim>\<open>
  def seconds_to_time(s, date):
      return datetime.datetime.combine(date, datetime.datetime.min.time()) - datetime.timedelta(seconds=s)
  \<close>
\<close>

definition seconds_to_time :: "number \<Rightarrow> datetime \<Rightarrow> error + datetime" where
  "seconds_to_time s date = ebind (timedelta_seconds s) (dt_sub (midnight date))"

text \<open>
  \<^verbatim>\<open>
  def format_relative_seconds(cls, seconds, date):
      if pd.isnull(seconds):
          return ""
      return cls.datetime_to_12hr(cls.seconds_to_time(seconds, date))
  \<close>
\<close>

definition format_relative_seconds :: "number \<Rightarrow> datetime \<Rightarrow> error + string" where
  "format_relative_seconds seconds date =
     (if isnull_number seconds then Inr ''''
      else ebind (seconds_to_time seconds date) (\<lambda>t. Inr (datetime_to_12hr t)))"

text \<open>
  \<^verbatim>\<open>
  def format_timedelta(x):
      return f'{x.components.hours:02d}:{x.components.minutes:02d}' if not pd.isnull(x) else ''
  \<close>
  The argument is a \<^verbatim>\<open>pd.Timedelta\<close>, a whole number of nanoseconds, or null (\<^verbatim>\<open>None\<close> or
  \<^verbatim>\<open>NaT\<close>). Its components are the days, rounded towards minus infinity, and the hours,
  minutes and so on of the rest. A \<^verbatim>\<open>datetime.timedelta\<close> has no attribute
  \<^verbatim>\<open>components\<close>; the program passes \<^verbatim>\<open>pd.Timedelta\<close> values only.
\<close>

type_synonym pd_timedelta = int

definition hours_component :: "pd_timedelta \<Rightarrow> int" where
  "hours_component x = x div 3600000000000 mod 24"

definition minutes_component :: "pd_timedelta \<Rightarrow> int" where
  "minutes_component x = x div 60000000000 mod 60"

definition format_timedelta :: "pd_timedelta option \<Rightarrow> string" where
  "format_timedelta x =
     (case x of
        None \<Rightarrow> ''''
      | Some td \<Rightarrow> fmt02 (hours_component td) @ '':'' @ fmt02 (minutes_component td))"

subsection \<open>The axis ticks: \<^verbatim>\<open>SleepPlot.update_layout\<close>\<close>

text \<open>\<^verbatim>\<open>list(range(start, stop, step))\<close> for a step other than zero.\<close>

definition py_range :: "int \<Rightarrow> int \<Rightarrow> int \<Rightarrow> int list" where
  "py_range start stop step =
     (let n = (if 0 < step then (stop - start + step - 1) div step
               else (start - stop - step - 1) div (- step))
      in map (\<lambda>i. start + int i * step) [0 ..< nat n])"

text \<open>\<^verbatim>\<open>pd.Timedelta(hours=n)\<close>.\<close>

definition timedelta_hours :: "int \<Rightarrow> pd_timedelta" where
  "timedelta_hours n = n * 3600000000000"

text \<open>
  \<^verbatim>\<open>
  time_range = list(range(86400, -86400, -3600))
  delta_range = [pd.Timedelta(hours=n) for n in range(16)]
  self.fig.update_layout(
      title="Davis' Sleep Schedule", hovermode="x unified",
      yaxis=dict(tickmode='array', tickvals=time_range,
          ticktext=[self.format_relative_seconds(time, datetime.datetime.today()) + "  " for time in time_range]),
      yaxis2=dict(tickmode='array', tickvals=delta_range,
          ticktext=[self.format_timedelta(n) for n in delta_range]),
      template="plotly_dark")
  \<close>
  The layout is the record passed to the chart library. The current time
  \<^verbatim>\<open>datetime.datetime.today()\<close> is a parameter; the program reads it once per label,
  and the model takes the same value for all of them.
\<close>

record axis =
  tickmode :: string
  tickvals :: "int list"
  ticktext :: "string list"

record layout =
  title :: string
  hovermode :: string
  yaxis :: axis
  yaxis2 :: axis
  template :: string

definition time_range :: "int list" where
  "time_range = py_range 86400 (- 86400) (- 3600)"

definition delta_range :: "pd_timedelta list" where
  "delta_range = map timedelta_hours (py_range 0 16 1)"

definition update_layout :: "datetime \<Rightarrow> error + layout" where
  "update_layout today =
     ebind (emap (\<lambda>time. ebind (format_relative_seconds (PyInt time) today)
                            (\<lambda>s. Inr (s @ ''  ''))) time_range) (\<lambda>labels.
       Inr \<lparr>title = ''Davis' Sleep Schedule'',
            hovermode = ''x unified'',
            yaxis = \<lparr>tickmode = ''array'', tickvals = time_range, ticktext = labels\<rparr>,
            yaxis2 = \<lparr>tickmode = ''array'', tickvals = delta_range,
                      ticktext = map (\<lambda>n. format_timedelta (Some n)) delta_range\<rparr>,
            template = ''plotly_dark''\<rparr>)"

text \<open>
  For the statements: an instant, in microseconds from the start of day 0, that falls in
  the years 1 to 9999; the 12-hour clock reading of a microsecond of the day; and the order
  of two datetimes.
\<close>

definition representable :: "int \<Rightarrow> bool" where
  "representable t = (DAY \<le> t \<and> t < (MAXORDINAL + 1) * DAY)"

definition clock_12hr :: "int \<Rightarrow> string" where
  "clock_12hr u = datetime_to_12hr \<lparr>ordinal = 1, usec = u\<rparr>"

definition before :: "datetime \<Rightarrow> datetime \<Rightarrow> bool" where
  "before a b = (to_us a < to_us b)"

text \<open>The 24 hourly labels of one day, each with the two spaces the layout appends.\<close>

definition day_labels :: "string list" where
  "day_labels =
    [''12:00 AM  '', ''01:00 AM  '', ''02:00 AM  '', ''03:00 AM  '', ''04:00 AM  '', ''05:00 AM  '',
     ''06:00 AM  '', ''07:00 AM  '', ''08:00 AM  '', ''09:00 AM  '', ''10:00 AM  '', ''11:00 AM  '',
     ''12:00 PM  '', ''01:00 PM  '', ''02:00 PM  '', ''03:00 PM  '', ''04:00 PM  '', ''05:00 PM  '',
     ''06:00 PM  '', ''07:00 PM  '', ''08:00 PM  '', ''09:00 PM  '', ''10:00 PM  '', ''11:00 PM  '']"

subsection \<open>The normaliser: \<^verbatim>\<open>SleepPlot.clean_data\<close>\<close>

text \<open>
  \<^verbatim>\<open>
  self.df = self.df.dropna(subset=["id"])
  self.df["date"] = pd.to_datetime(self.df["calendarDate"], format="%Y-%m-%d")
  self.df["bedtime"] = pd.to_datetime(self.df['sleepStartTimestampLocal'], unit='ms')
  self.df["wakeup"] = pd.to_datetime(self.df['sleepEndTimestampLocal'], unit='ms')
  self.df["sleeptime"] = pd.to_timedelta(self.df["sleepTimeSeconds"], unit='s')
  self.df = self.df.sort_values("date")
  self.df["r_bedtime"] = self.df.apply(lambda row: self.make_relative(row.bedtime, row.date), axis=1)
  self.df["r_wakeup"] = self.df.apply(lambda row: self.make_relative(row.wakeup, row.date), axis=1)
  self.df["f_bedtime"] = self.df.apply(lambda row: self.format_relative_seconds(row.r_bedtime, row.date), axis=1)
  self.df["f_wakeup"] = self.df.apply(lambda row: self.format_relative_seconds(row.r_wakeup, row.date), axis=1)
  self.df["rm_bedtime"] = self.df["r_bedtime"].rolling(7).mean()
  self.df["rm_wakeup"] = self.df["r_wakeup"].rolling(7).mean()
  \<close>
  The input is a frame of raw cells. The three pandas conversions of a cell are
  parameters of the model: each maps a cell to a value, to null (\<^verbatim>\<open>NaT\<close>, here \<open>None\<close>) or
  to an exception. The kernel behind \<^verbatim>\<open>rolling(7).mean()\<close>, which pandas evaluates in
  float arithmetic over the whole column, is a parameter as well: it maps a window size
  and a column of floats to a column of floats. The new columns are fields of the rows.
\<close>

record conversions =
  to_datetime_ymd :: "json \<Rightarrow> error + datetime option"
  to_datetime_ms :: "json \<Rightarrow> error + datetime option"
  to_timedelta_s :: "json \<Rightarrow> error + pd_timedelta option"

record timed_row =
  label :: nat
  cells :: "json list"
  date :: "datetime option"
  bedtime :: "datetime option"
  wakeup :: "datetime option"
  sleeptime :: "pd_timedelta option"

record relative_row = timed_row +
  r_bedtime :: number
  r_wakeup :: number
  f_bedtime :: string
  f_wakeup :: string

record sleep_row = relative_row +
  rm_bedtime :: number
  rm_wakeup :: number

text \<open>\<^verbatim>\<open>df[name]\<close>: the cells of a column, \<^verbatim>\<open>KeyError\<close> when there is no such column.\<close>

definition column :: "dataframe \<Rightarrow> string \<Rightarrow> error + json list" where
  "column df name =
     (case index_of name (columns df) of
        None \<Rightarrow> Inl (KeyError (JStr name))
      | Some j \<Rightarrow> Inr (map (\<lambda>(i, r). r ! j) (rows df)))"

text \<open>
  \<^verbatim>\<open>sort_values("date")\<close> sorts ascending with \<^verbatim>\<open>NaT\<close> last. The key of a row is
  \<open>(0, t)\<close> for a date at the instant \<open>t\<close> and \<open>(1, 0)\<close> for \<^verbatim>\<open>NaT\<close>, in lexicographic
  order. pandas does not promise the order of rows with equal dates; the model keeps
  their input order.
\<close>

definition date_key :: "timed_row \<Rightarrow> int \<times> int" where
  "date_key r = (case date r of None \<Rightarrow> (1, 0) | Some d \<Rightarrow> (0, to_us d))"

definition sort_values_date :: "timed_row list \<Rightarrow> timed_row list" where
  "sort_values_date rs = sort_key date_key rs"

definition mk_timed_row ::
  "((((nat \<times> json list) \<times> datetime option) \<times> datetime option) \<times> datetime option)
     \<times> pd_timedelta option \<Rightarrow> timed_row" where
  "mk_timed_row x =
     (case x of (((((i, r), d), b), w), s) \<Rightarrow>
        \<lparr>label = i, cells = r, date = d, bedtime = b, wakeup = w, sleeptime = s\<rparr>)"

text \<open>The lines up to and including \<^verbatim>\<open>sort_values\<close>.\<close>

definition clean_rows :: "conversions \<Rightarrow> dataframe \<Rightarrow> error + timed_row list" where
  "clean_rows conv df =
     ebind (dropna ''id'' df) (\<lambda>df1.
     ebind (ebind (column df1 ''calendarDate'') (emap (to_datetime_ymd conv))) (\<lambda>dates.
     ebind (ebind (column df1 ''sleepStartTimestampLocal'') (emap (to_datetime_ms conv))) (\<lambda>beds.
     ebind (ebind (column df1 ''sleepEndTimestampLocal'') (emap (to_datetime_ms conv))) (\<lambda>wakes.
     ebind (ebind (column df1 ''sleepTimeSeconds'') (emap (to_timedelta_s conv))) (\<lambda>sleeps.
       Inr (sort_values_date
              (map mk_timed_row (zip (zip (zip (zip (rows df1) dates) beds) wakes) sleeps))))))))"

text \<open>
  \<open>make_relative\<close> on the cells of a row. A null time gives \<^verbatim>\<open>nan\<close> (\<^verbatim>\<open>NaT\<close> minus a
  datetime is \<^verbatim>\<open>NaT\<close>, whose \<^verbatim>\<open>total_seconds()\<close> is \<^verbatim>\<open>nan\<close>). What a null date does
  depends on the pandas version; the model raises \<^verbatim>\<open>TypeError\<close> there.
\<close>

definition row_relative :: "datetime option \<Rightarrow> datetime option \<Rightarrow> error + number" where
  "row_relative t d =
     (case d of
        None \<Rightarrow> Inl TypeError
      | Some d' \<Rightarrow> (case t of None \<Rightarrow> Inr PyNaN | Some t' \<Rightarrow> Inr (PyFloat (make_relative t' d'))))"

definition row_format :: "number \<Rightarrow> datetime option \<Rightarrow> error + string" where
  "row_format s d =
     (if isnull_number s then Inr ''''
      else case d of None \<Rightarrow> Inl TypeError | Some d' \<Rightarrow> format_relative_seconds s d')"

definition mk_relative_row ::
  "(((timed_row \<times> number) \<times> number) \<times> string) \<times> string \<Rightarrow> relative_row" where
  "mk_relative_row x =
     (case x of ((((r, rb), rw), fb), fw) \<Rightarrow>
        timed_row.extend r
          (relative_row.fields rb rw fb fw))"

definition relative_rows :: "timed_row list \<Rightarrow> error + relative_row list" where
  "relative_rows rs =
     ebind (emap (\<lambda>r. row_relative (bedtime r) (date r)) rs) (\<lambda>rbs.
     ebind (emap (\<lambda>r. row_relative (wakeup r) (date r)) rs) (\<lambda>rws.
     ebind (emap (\<lambda>(r, s). row_format s (date r)) (zip rs rbs)) (\<lambda>fbs.
     ebind (emap (\<lambda>(r, s). row_format s (date r)) (zip rs rws)) (\<lambda>fws.
       Inr (map mk_relative_row (zip (zip (zip (zip rs rbs) rws) fbs) fws))))))"

definition mk_sleep_row :: "(relative_row \<times> number) \<times> number \<Rightarrow> sleep_row" where
  "mk_sleep_row x =
     (case x of ((r, mb), mw) \<Rightarrow> relative_row.extend r (sleep_row.fields mb mw))"

definition rolling_rows ::
  "(nat \<Rightarrow> number list \<Rightarrow> number list) \<Rightarrow> relative_row list \<Rightarrow> sleep_row list" where
  "rolling_rows rolling_mean rs =
     map mk_sleep_row
       (zip (zip rs (rolling_mean 7 (map r_bedtime rs))) (rolling_mean 7 (map r_wakeup rs)))"

definition clean_data ::
  "conversions \<Rightarrow> (nat \<Rightarrow> number list \<Rightarrow> number list) \<Rightarrow> dataframe \<Rightarrow> error + sleep_row list"
where
  "clean_data conv rolling_mean df =
     ebind (clean_rows conv df) (\<lambda>rs.
     ebind (relative_rows rs) (\<lambda>rel. Inr (rolling_rows rolling_mean rel)))"

text \<open>The rows of the final table without the derived columns.\<close>

definition timed_part :: "'a timed_row_scheme \<Rightarrow> timed_row" where
  "timed_part r =
     \<lparr>label = label r, cells = cells r, date = date r, bedtime = bedtime r,
      wakeup = wakeup r, sleeptime = sleeptime r\<rparr>"

subsubsection \<open>An instance of the parameters\<close>

text \<open>
  Conversions of well-formed cells, for the concrete runs below: a date written
  \<^verbatim>\<open>YYYY-MM-DD\<close>, an integer number of milliseconds since 1970-01-01, an integer number of
  seconds; a null cell gives null and any other cell raises.
\<close>

definition digit_value :: "char \<Rightarrow> int option" where
  "digit_value c = map_option int (index_of [c] (map (\<lambda>d. [d]) ''0123456789''))"

fun digits_value :: "string \<Rightarrow> int \<Rightarrow> int option" where
  "digits_value [] acc = Some acc"
| "digits_value (c # cs) acc =
     (case digit_value c of None \<Rightarrow> None | Some v \<Rightarrow> digits_value cs (10 * acc + v))"

definition days_in_month :: "int \<Rightarrow> int \<Rightarrow> int" where
  "days_in_month y m =
     (if m = 2 \<and> is_leap y then 29 else days_in_month_table ! nat (m - 1))"

definition parse_ymd :: "json \<Rightarrow> error + datetime option" where
  "parse_ymd v =
     (case v of
        JStr s \<Rightarrow>
          (if length s = 10 \<and> s ! 4 = CHR ''-'' \<and> s ! 7 = CHR ''-'' then
             (case (digits_value (take 4 s) 0, digits_value (take 2 (drop 5 s)) 0,
                    digits_value (drop 8 s) 0) of
                (Some y, Some m, Some d) \<Rightarrow>
                  if 1 \<le> y \<and> 1 \<le> m \<and> m \<le> 12 \<and> 1 \<le> d \<and> d \<le> days_in_month y m
                  then Inr (Some (mk_date y m d)) else Inl ValueError
              | _ \<Rightarrow> Inl ValueError)
           else Inl ValueError)
      | JNull \<Rightarrow> Inr None
      | JNaN \<Rightarrow> Inr None
      | _ \<Rightarrow> Inl ValueError)"

definition epoch_ms :: "json \<Rightarrow> error + datetime option" where
  "epoch_ms v =
     (case v of
        JInt n \<Rightarrow> ebind (of_us (719163 * DAY + n * 1000)) (\<lambda>t. Inr (Some t))
      | JNull \<Rightarrow> Inr None
      | JNaN \<Rightarrow> Inr None
      | _ \<Rightarrow> Inl ValueError)"

definition whole_seconds :: "json \<Rightarrow> error + pd_timedelta option" where
  "whole_seconds v =
     (case v of
        JInt n \<Rightarrow> Inr (Some (n * 1000000000))
      | JNull \<Rightarrow> Inr None
      | JNaN \<Rightarrow> Inr None
      | _ \<Rightarrow> Inl ValueError)"

definition simple_conversions :: conversions where
  "simple_conversions =
     \<lparr>to_datetime_ymd = parse_ymd, to_datetime_ms = epoch_ms, to_timedelta_s = whole_seconds\<rparr>"

text \<open>
  Modelled from the spec: the kernel behind \<^verbatim>\<open>rolling(7).mean()\<close>, which is code of pandas
  and not among the sources. The spec has it as ``a trailing window of exactly 7 samples
  (the 7 most recent rows including current)'', whose value is ``the arithmetic mean'' of
  the window, where ``the first 6 rows of the table have undefined/missing rolling-mean
  values (insufficient window)''. The columns hold floats, so the mean is taken as a float:
  the mean of the window rounded to the nearest float. A window with a missing value holds
  fewer than 7 samples, and its mean is missing as well.
\<close>

definition float_value :: "number \<Rightarrow> rat option" where
  "float_value s = (case s of PyFloat x \<Rightarrow> Some x | PyInt n \<Rightarrow> Some (of_int n) | _ \<Rightarrow> None)"

definition window_mean :: "number list \<Rightarrow> number" where
  "window_mean ws =
     (if list_all (\<lambda>s. float_value s \<noteq> None) ws
      then PyFloat (fl (sum_list (map (\<lambda>s. the (float_value s)) ws) / of_nat (length ws)))
      else PyNaN)"

definition rounded_rolling_mean :: "nat \<Rightarrow> number list \<Rightarrow> number list" where
  "rounded_rolling_mean w xs =
     map (\<lambda>i. if i + 1 < w then PyNaN else window_mean (take w (drop (i + 1 - w) xs)))
       [0 ..< length xs]"

text \<open>
  A table of three days, out of order and one without \<^verbatim>\<open>id\<close>, and the table that
  \<open>clean_data\<close> makes of it under the instance.
\<close>

definition raw_table :: dataframe where
  "raw_table =
     \<lparr>columns = [''id'', ''calendarDate'', ''sleepStartTimestampLocal'',
                 ''sleepEndTimestampLocal'', ''sleepTimeSeconds''],
      rows = [(0, [JInt 11, JStr ''2024-01-03'', JInt 1704241800000, JInt 1704268800000, JInt 27000]),
              (1, [JNull, JStr ''2024-01-02'', JNull, JNull, JNull]),
              (2, [JInt 12, JStr ''2024-01-02'', JInt 1704150000000, JInt 1704179700000, JInt 29700])]\<rparr>"

definition clean_table :: "sleep_row list" where
  "clean_table =
     [\<lparr>label = 2,
       cells = [JInt 12, JStr ''2024-01-02'', JInt 1704150000000, JInt 1704179700000, JInt 29700],
       date = Some (mk_date 2024 1 2),
       bedtime = Some (mk_datetime 2024 1 1 23 0 0 0),
       wakeup = Some (mk_datetime 2024 1 2 7 15 0 0),
       sleeptime = Some 29700000000000,
       r_bedtime = PyFloat 3600, r_wakeup = PyFloat (- 26100),
       f_bedtime = ''11:00 PM'', f_wakeup = ''07:15 AM'',
       rm_bedtime = PyNaN, rm_wakeup = PyNaN\<rparr>,
      \<lparr>label = 0,
       cells = [JInt 11, JStr ''2024-01-03'', JInt 1704241800000, JInt 1704268800000, JInt 27000],
       date = Some (mk_date 2024 1 3),
       bedtime = Some (mk_datetime 2024 1 3 0 30 0 0),
       wakeup = Some (mk_datetime 2024 1 3 8 0 0 0),
       sleeptime = Some 27000000000000,
       r_bedtime = PyFloat (- 1800), r_wakeup = PyFloat (- 28800),
       f_bedtime = ''12:30 AM'', f_wakeup = ''08:00 AM'',
       rm_bedtime = PyNaN, rm_wakeup = PyNaN\<rparr>]"





section \<open>Properties\<close>

subsection \<open>The error monad\<close>

lemma ebind_Inr [simp]: "ebind (Inr x) f = f x"
  by (simp add: ebind_def)

lemma ebind_Inl [simp]: "ebind (Inl e) f = Inl e"
  by (simp add: ebind_def)

lemma emap_length: "emap f xs = Inr ys \<Longrightarrow> length ys = length xs"
proof (induction xs arbitrary: ys)
  case Nil
  then show ?case by simp
next
  case (Cons x xs)
  then show ?case by (cases "f x"; cases "emap f xs") auto
qed

lemma emap_nth: "emap f xs = Inr ys \<Longrightarrow> i < length xs \<Longrightarrow> f (xs ! i) = Inr (ys ! i)"
proof (induction xs arbitrary: ys i)
  case Nil
  then show ?case by simp
next
  case (Cons x xs)
  then show ?case by (cases "f x"; cases "emap f xs"; cases i) auto
qed

lemma emap_total: "(\<And>x. x \<in> set xs \<Longrightarrow> f x = Inr (g x)) \<Longrightarrow> emap f xs = Inr (map g xs)"
  by (induction xs) auto

subsection \<open>The flattener\<close>

lemma dto_column_ok:
  "emap dto_of data = Inr dtos \<Longrightarrow>
   dto_column data key = Inr (map (\<lambda>dto. dict_get dto key) dtos)"
  unfolding dto_column_def
proof (induction data arbitrary: dtos)
  case Nil
  then show ?case by simp
next
  case (Cons d data)
  then show ?case
    by (cases "dto_of d"; cases "emap dto_of data") auto
qed

lemma setitem_fresh: "k \<notin> fst ` set d \<Longrightarrow> setitem d k v = d @ [(k, v)]"
  by (induction d) auto

text \<open>With distinct keys the loop appends one column per key, in key order.\<close>

lemma dto_loop_ok:
  assumes "emap dto_of data = Inr dtos"
  shows "distinct ks \<Longrightarrow> set ks \<inter> fst ` set acc = {} \<Longrightarrow>
    dto_loop data ks acc = Inr (acc @ map (\<lambda>k. (k, map (\<lambda>dto. dict_get dto k) dtos)) ks)"
proof (induction ks arbitrary: acc)
  case Nil
  then show ?case by simp
next
  case (Cons k ks)
  have fresh: "k \<notin> fst ` set acc" using Cons.prems by auto
  have "set ks \<inter> fst ` set (acc @ [(k, map (\<lambda>dto. dict_get dto k) dtos)]) = {}"
    using Cons.prems by auto
  with Cons show ?case
    by (simp add: dto_column_ok[OF assms] setitem_fresh[OF fresh])
qed

lemma index_of_Some:
  "k \<in> set cs \<Longrightarrow> \<exists>j. index_of k cs = Some j \<and> j < length cs \<and> cs ! j = k"
  by (induction cs) auto

lemma index_of_None: "k \<notin> set cs \<Longrightarrow> index_of k cs = None"
  by (induction cs) auto

lemma to_float64_isnull [simp]: "isnull (to_float64 v) = isnull v"
  by (cases v) (simp_all add: to_float64_def isnull_def)

lemma infer_objects_length [simp]: "length (infer_objects c) = length c"
  by (simp add: infer_objects_def)

lemma infer_objects_isnull: "i < length c \<Longrightarrow> isnull (infer_objects c ! i) = isnull (c ! i)"
  by (simp add: infer_objects_def)

lemma from_dict_ok:
  assumes "ks \<noteq> []"
  shows "from_dict (map (\<lambda>k. (k, map (\<lambda>dto. dict_get dto k) dtos)) ks) =
    Inr \<lparr>columns = ks, rows = map (\<lambda>i. (i, frame_row ks dtos i)) [0 ..< length dtos]\<rparr>"
proof -
  obtain k ks' where ks: "ks = k # ks'" using assms by (cases ks) auto
  have all: "list_all (\<lambda>(k', c'). length c' = length dtos)
      (map (\<lambda>k. (k, map (\<lambda>dto. dict_get dto k) dtos)) ks')"
    by (simp add: list_all_iff)
  have row: "\<And>i. row_at ((k, map (\<lambda>dto. dict_get dto k) dtos)
        # map (\<lambda>k. (k, map (\<lambda>dto. dict_get dto k) dtos)) ks') i
      = frame_row (k # ks') dtos i"
    by (simp add: row_at_def frame_row_def dto_cells_def comp_def)
  show ?thesis
    using all by (simp add: from_dict_def ks row comp_def del: upt_Suc)
qed

text \<open>
  The whole run of \<open>dto_to_df\<close> on payloads that all carry a \<^verbatim>\<open>dailySleepDTO\<close> dict,
  the first with the key \<^verbatim>\<open>id\<close>.
\<close>

lemma dto_to_df_eval:
  assumes "data \<noteq> []"
    and "emap dto_of data = Inr dtos"
    and "distinct (keys (hd dtos))"
    and "''id'' \<in> set (keys (hd dtos))"
  shows "dto_to_df data =
    Inr \<lparr>columns = keys (hd dtos),
         rows = map (\<lambda>i. (i, frame_row (keys (hd dtos)) dtos i))
                  (filter (\<lambda>i. \<not> isnull (dict_get (dtos ! i) ''id'')) [0 ..< length dtos])\<rparr>"
proof -
  obtain d0 rest where data: "data = d0 # rest" using assms(1) by (cases data) auto
  let ?ks = "keys (hd dtos)"
  have d0: "dto_of d0 = Inr (hd dtos)"
    using emap_nth[OF assms(2), of 0] emap_length[OF assms(2)] data
    by (cases dtos) auto
  have loop: "dto_loop data ?ks [] = Inr (map (\<lambda>k. (k, map (\<lambda>dto. dict_get dto k) dtos)) ?ks)"
    using dto_loop_ok[OF assms(2) assms(3), of "[]"] by simp
  have ne: "?ks \<noteq> []" using assms(4) by auto
  obtain j where j: "index_of ''id'' ?ks = Some j" "j < length ?ks" "?ks ! j = ''id''"
    using index_of_Some[OF assms(4)] by blast
  have cell: "\<And>i. i < length dtos \<Longrightarrow>
      isnull (frame_row ?ks dtos i ! j) = isnull (dict_get (dtos ! i) ''id'')"
    using j by (simp add: frame_row_def dto_cells_def infer_objects_isnull)
  have "dto_to_df data =
      ebind (from_dict (map (\<lambda>k. (k, map (\<lambda>dto. dict_get dto k) dtos)) ?ks)) (dropna ''id'')"
    using d0 loop by (simp add: dto_to_df_def data)
  also have "\<dots> = dropna ''id''
      \<lparr>columns = ?ks, rows = map (\<lambda>i. (i, frame_row ?ks dtos i)) [0 ..< length dtos]\<rparr>"
    by (simp add: from_dict_ok[OF ne])
  also have "\<dots> = Inr \<lparr>columns = ?ks, rows = filter (\<lambda>(i, r). \<not> isnull (r ! j))
      (map (\<lambda>i. (i, frame_row ?ks dtos i)) [0 ..< length dtos])\<rparr>"
    by (simp add: dropna_def j del: upt_Suc)
  also have "filter (\<lambda>(i, r). \<not> isnull (r ! j))
        (map (\<lambda>i. (i, frame_row ?ks dtos i)) [0 ..< length dtos])
     = map (\<lambda>i. (i, frame_row ?ks dtos i))
         (filter (\<lambda>i. \<not> isnull (frame_row ?ks dtos i ! j)) [0 ..< length dtos])"
    by (simp add: filter_map comp_def del: upt_Suc)
  also have "filter (\<lambda>i. \<not> isnull (frame_row ?ks dtos i ! j)) [0 ..< length dtos]
     = filter (\<lambda>i. \<not> isnull (dict_get (dtos ! i) ''id'')) [0 ..< length dtos]"
    by (rule filter_cong) (simp_all add: cell)
  finally show ?thesis .
qed

text \<open>Without the column \<^verbatim>\<open>id\<close> the final \<^verbatim>\<open>dropna\<close> raises.\<close>

lemma dto_to_df_no_id:
  assumes "data \<noteq> []"
    and "emap dto_of data = Inr dtos"
    and "distinct (keys (hd dtos))"
    and "''id'' \<notin> set (keys (hd dtos))"
  shows "dto_to_df data = Inl (KeyError (JArr [JStr ''id'']))"
proof -
  obtain d0 rest where data: "data = d0 # rest" using assms(1) by (cases data) auto
  let ?ks = "keys (hd dtos)"
  have d0: "dto_of d0 = Inr (hd dtos)"
    using emap_nth[OF assms(2), of 0] emap_length[OF assms(2)] data
    by (cases dtos) auto
  have loop: "dto_loop data ?ks [] = Inr (map (\<lambda>k. (k, map (\<lambda>dto. dict_get dto k) dtos)) ?ks)"
    using dto_loop_ok[OF assms(2) assms(3), of "[]"] by simp
  have step: "dto_to_df data =
      ebind (from_dict (map (\<lambda>k. (k, map (\<lambda>dto. dict_get dto k) dtos)) ?ks)) (dropna ''id'')"
    using d0 loop by (simp add: dto_to_df_def data)
  show ?thesis
  proof (cases "?ks = []")
    case True
    then show ?thesis unfolding step by (simp add: from_dict_def dropna_def)
  next
    case False
    then show ?thesis
      unfolding step by (simp add: from_dict_ok dropna_def index_of_None[OF assms(4)])
  qed
qed

lemma rows_lookup:
  "map_of (map (\<lambda>i. (i, f i)) (filter P [0 ..< n])) j =
     (if j < n \<and> P j then Some (f j) else None)"
proof -
  let ?l = "map (\<lambda>i. (i, f i)) (filter P [0 ..< n])"
  have fst: "map fst ?l = filter P [0 ..< n]" by (simp add: comp_def)
  have dist: "distinct (map fst ?l)" unfolding fst by simp
  have mem: "\<And>y. (j, y) \<in> set ?l \<longleftrightarrow> j < n \<and> P j \<and> y = f j" by auto
  show ?thesis
  proof (cases "j < n \<and> P j")
    case True
    then have "(j, f j) \<in> set ?l" using mem by blast
    then have "map_of ?l j = Some (f j)" using dist by (rule map_of_is_SomeI[rotated])
    then show ?thesis using True by simp
  next
    case False
    then have "j \<notin> fst ` set ?l" using mem by force
    then have "map_of ?l j = None" by (rule map_of_eq_None_iff[THEN iffD2])
    then show ?thesis using False by auto
  qed
qed

text \<open>The cell of a row under a key that the payload lacks.\<close>

lemma frame_row_cell:
  assumes "k \<in> set ks" and "i < length dtos"
  shows "\<exists>c. index_of k ks = Some c
    \<and> frame_row ks dtos i ! c = infer_objects (map (\<lambda>dto. dict_get dto k) dtos) ! i"
proof -
  obtain c where "index_of k ks = Some c" "c < length ks" "ks ! c = k"
    using index_of_Some[OF assms(1)] by blast
  then show ?thesis by (auto simp: frame_row_def dto_cells_def)
qed

lemma infer_objects_null:
  assumes "i < length c" and "c ! i = JNull"
  shows "infer_objects c ! i = (if promoted c then JNaN else JNull)"
  using assms by (simp add: infer_objects_def to_float64_def)

lemma dict_get_missing: "k \<notin> set (keys d) \<Longrightarrow> dict_get d k = JNull"
  by (simp add: dict_get_def keys_def map_of_eq_None_iff[THEN iffD2])

lemma day_payloads_dtos: "emap dto_of day_payloads = Inr day_dtos"
  by (simp add: day_payloads_def day_dtos_def dto_of_def getitem_def as_dict_def)

lemma day_frame:
  "map (\<lambda>i. (i, frame_row (keys (hd day_dtos)) day_dtos i))
     (filter (\<lambda>i. \<not> isnull (dict_get (day_dtos ! i) ''id'')) [0 ..< length day_dtos])
   = [(0, [JFloat 1, JStr ''2024-01-01'']), (2, [JFloat 3, JNull])]"
  by code_simp

text \<open>
  Claim C4 (flattener contract), as amended. For a non-empty sequence of payloads that
  each carry a \<^verbatim>\<open>dailySleepDTO\<close> dict (whose keys are distinct, as in every dict) and whose
  numbers fit 64 bits: when the first record's \<^verbatim>\<open>dailySleepDTO\<close> has the key \<^verbatim>\<open>id\<close>,
  \<open>dto_to_df\<close> returns the table whose columns are the keys of the first record's
  \<^verbatim>\<open>dailySleepDTO\<close>, in their order, and whose rows are the payloads' values under these
  keys (null where a key is missing), each column with its type inferred (\<open>dto_cells\<close>:
  in a column of numbers with a float or a null, the ints become floats and the nulls
  \<^verbatim>\<open>nan\<close>), in input order and labelled by input position, without exactly the rows whose
  \<^verbatim>\<open>id\<close> is null or missing. When the first record has no key \<^verbatim>\<open>id\<close>, the call raises
  \<^verbatim>\<open>KeyError\<close> instead.
\<close>

theorem dto_to_df_table:
  assumes "data \<noteq> []"
    and "emap dto_of data = Inr dtos"
    and "distinct (keys (hd dtos))"
    and "int64_dtos dtos"
  shows "dto_to_df data =
    (if ''id'' \<in> set (keys (hd dtos))
     then Inr \<lparr>columns = keys (hd dtos),
         rows = map (\<lambda>i. (i, frame_row (keys (hd dtos)) dtos i))
                  (filter (\<lambda>i. \<not> isnull (dict_get (dtos ! i) ''id'')) [0 ..< length dtos])\<rparr>
     else Inl (KeyError (JArr [JStr ''id''])))"
  using dto_to_df_eval[OF assms(1-3)] dto_to_df_no_id[OF assms(1-3)] by simp

text \<open>
  The four example payloads: the \<^verbatim>\<open>id\<close> column holds ints and nulls and becomes floats,
  the \<^verbatim>\<open>calendarDate\<close> column holds strings and keeps its \<^verbatim>\<open>None\<close>.
\<close>

theorem dto_to_df_table_witness:
  "day_payloads \<noteq> [] \<and> emap dto_of day_payloads = Inr day_dtos
   \<and> distinct (keys (hd day_dtos)) \<and> int64_dtos day_dtos
   \<and> ''id'' \<in> set (keys (hd day_dtos))
   \<and> dto_to_df day_payloads =
       Inr \<lparr>columns = [''id'', ''calendarDate''],
            rows = [(0, [JFloat 1, JStr ''2024-01-01'']), (2, [JFloat 3, JNull])]\<rparr>"
proof -
  have h: "day_payloads \<noteq> []" "distinct (keys (hd day_dtos))" "int64_dtos day_dtos"
    "''id'' \<in> set (keys (hd day_dtos))"
    by (simp_all add: day_payloads_def day_dtos_def keys_def int64_dtos_def int64_cell_def)
  have "dto_to_df day_payloads =
       Inr \<lparr>columns = [''id'', ''calendarDate''],
            rows = [(0, [JFloat 1, JStr ''2024-01-01'']), (2, [JFloat 3, JNull])]\<rparr>"
    using dto_to_df_table[OF h(1) day_payloads_dtos h(2,3)] h(4)
    by (simp only: if_True day_frame) (simp add: day_dtos_def keys_def)
  with h day_payloads_dtos show ?thesis by blast
qed

text \<open>
  The claim as stated fails in two places. Where the first record's \<^verbatim>\<open>dailySleepDTO\<close> has
  no key \<^verbatim>\<open>id\<close>, no table is produced. And a row need not hold the payload's value: next
  to a null, the int 9007199254740993 becomes the float 9007199254740992.
\<close>

theorem dto_to_df_table_counterexample:
  "dto_to_df [[(''dailySleepDTO'', JObj [(''calendarDate'', JStr ''2024-01-04'')])]]
     = Inl (KeyError (JArr [JStr ''id'']))
   \<and> dto_to_df [[(''dailySleepDTO'', JObj [(''id'', JInt 9007199254740993)])],
                 [(''dailySleepDTO'', JObj [(''id'', JNull)])]]
     = Inr \<lparr>columns = [''id''], rows = [(0, [JFloat 9007199254740992])]\<rparr>"
  by code_simp

text \<open>
  Claim C10 (missing keys in later records), as amended. Let the payloads each carry a
  \<^verbatim>\<open>dailySleepDTO\<close> dict, let \<open>K\<close> be the keys of the first, and let a later record \<open>j\<close>
  lack a key \<open>k\<close> of \<open>K\<close>. When \<open>K\<close> holds \<^verbatim>\<open>id\<close>, \<open>dto_to_df\<close> returns a frame; row \<open>j\<close>
  is absent from it exactly when the record's \<^verbatim>\<open>id\<close> is null or missing, so it is absent
  when \<open>k\<close> is \<^verbatim>\<open>id\<close>; and when the row is present its cell under \<open>k\<close> is null:
  \<^verbatim>\<open>nan\<close> in a column that became floats, \<^verbatim>\<open>None\<close> otherwise. When \<open>K\<close> does not hold
  \<^verbatim>\<open>id\<close>, the call raises \<^verbatim>\<open>KeyError\<close> whatever the later records hold.
\<close>

theorem dto_to_df_missing_key:
  assumes "data \<noteq> []"
    and "emap dto_of data = Inr dtos"
    and "distinct (keys (hd dtos))"
    and "0 < j" and "j < length dtos"
    and "k \<in> set (keys (hd dtos))" and "k \<notin> set (keys (dtos ! j))"
  shows "if ''id'' \<in> set (keys (hd dtos))
    then \<exists>df. dto_to_df data = Inr df
      \<and> (map_of (rows df) j = None \<longleftrightarrow> isnull (dict_get (dtos ! j) ''id''))
      \<and> (k = ''id'' \<longrightarrow> map_of (rows df) j = None)
      \<and> (\<forall>r. map_of (rows df) j = Some r \<longrightarrow>
            (\<exists>v. cell_of df r k = Some v \<and> isnull v
              \<and> v = (if promoted (map (\<lambda>dto. dict_get dto k) dtos) then JNaN else JNull)))
    else dto_to_df data = Inl (KeyError (JArr [JStr ''id'']))"
proof (cases "''id'' \<in> set (keys (hd dtos))")
  case False
  then show ?thesis using dto_to_df_no_id[OF assms(1-3)] by simp
next
  case True
  let ?K = "keys (hd dtos)"
  let ?v = "if promoted (map (\<lambda>dto. dict_get dto k) dtos) then JNaN else JNull"
  let ?df = "\<lparr>columns = ?K,
         rows = map (\<lambda>i. (i, frame_row ?K dtos i))
                  (filter (\<lambda>i. \<not> isnull (dict_get (dtos ! i) ''id'')) [0 ..< length dtos])\<rparr>"
  have df: "dto_to_df data = Inr ?df"
    using dto_to_df_eval[OF assms(1-3) True] .
  have look: "map_of (rows ?df) j =
      (if \<not> isnull (dict_get (dtos ! j) ''id'') then Some (frame_row ?K dtos j) else None)"
    using rows_lookup[of "frame_row ?K dtos" "\<lambda>i. \<not> isnull (dict_get (dtos ! i) ''id'')"
        "length dtos" j] assms(5)
    by simp
  have null: "dict_get (dtos ! j) k = JNull"
    using assms(7) by (rule dict_get_missing)
  obtain c where c: "index_of k ?K = Some c"
    "frame_row ?K dtos j ! c = infer_objects (map (\<lambda>dto. dict_get dto k) dtos) ! j"
    using frame_row_cell[OF assms(6) assms(5)] by blast
  have v: "frame_row ?K dtos j ! c = ?v"
    unfolding c(2) using assms(5) null by (intro infer_objects_null) simp_all
  have nv: "isnull ?v" by (simp add: isnull_def)
  have 1: "map_of (rows ?df) j = None \<longleftrightarrow> isnull (dict_get (dtos ! j) ''id'')"
    unfolding look by simp
  have 2: "k = ''id'' \<longrightarrow> map_of (rows ?df) j = None"
    unfolding look using null by (auto simp: isnull_def)
  have 3: "\<forall>r. map_of (rows ?df) j = Some r \<longrightarrow>
      (\<exists>v. cell_of ?df r k = Some v \<and> isnull v \<and> v = ?v)"
    unfolding look using c(1) v nv by (auto simp: cell_of_def)
  have "\<exists>df. dto_to_df data = Inr df
      \<and> (map_of (rows df) j = None \<longleftrightarrow> isnull (dict_get (dtos ! j) ''id''))
      \<and> (k = ''id'' \<longrightarrow> map_of (rows df) j = None)
      \<and> (\<forall>r. map_of (rows df) j = Some r \<longrightarrow>
            (\<exists>v. cell_of df r k = Some v \<and> isnull v \<and> v = ?v))"
    by (rule exI[of _ ?df]) (use df 1 2 3 in blast)
  then show ?thesis using True by simp
qed

text \<open>
  Record 2 of the example lacks \<^verbatim>\<open>calendarDate\<close> and keeps its row with a null cell;
  record 3 lacks \<^verbatim>\<open>id\<close> and loses its row.
\<close>

theorem dto_to_df_missing_key_witness:
  "day_payloads \<noteq> [] \<and> emap dto_of day_payloads = Inr day_dtos
   \<and> distinct (keys (hd day_dtos)) \<and> (0::nat) < 2 \<and> 2 < length day_dtos
   \<and> ''calendarDate'' \<in> set (keys (hd day_dtos))
   \<and> ''calendarDate'' \<notin> set (keys (day_dtos ! 2))
   \<and> ''id'' \<in> set (keys (hd day_dtos))
   \<and> (\<exists>df. dto_to_df day_payloads = Inr df
      \<and> map_of (rows df) 2 = Some [JFloat 3, JNull]
      \<and> cell_of df [JFloat 3, JNull] ''calendarDate'' = Some JNull
      \<and> map_of (rows df) 3 = None)"
proof -
  have h: "day_payloads \<noteq> []" "distinct (keys (hd day_dtos))" "(0::nat) < 2"
    "2 < length day_dtos" "''calendarDate'' \<in> set (keys (hd day_dtos))"
    "''calendarDate'' \<notin> set (keys (day_dtos ! 2))" "''id'' \<in> set (keys (hd day_dtos))"
    by (simp_all add: day_payloads_def day_dtos_def keys_def)
  have "\<exists>df. dto_to_df day_payloads = Inr df
      \<and> (map_of (rows df) 2 = None \<longleftrightarrow> isnull (dict_get (day_dtos ! 2) ''id''))"
    using dto_to_df_missing_key[OF h(1) day_payloads_dtos h(2-6)] h(7) by auto
  then obtain df where df: "dto_to_df day_payloads = Inr df" by blast
  have val: "dto_to_df day_payloads =
       Inr \<lparr>columns = [''id'', ''calendarDate''],
            rows = [(0, [JFloat 1, JStr ''2024-01-01'']), (2, [JFloat 3, JNull])]\<rparr>"
    using dto_to_df_eval[OF h(1) day_payloads_dtos h(2) h(7)]
    by (simp only: day_frame) (simp add: day_dtos_def keys_def)
  have "map_of (rows df) 2 = Some [JFloat 3, JNull]
      \<and> cell_of df [JFloat 3, JNull] ''calendarDate'' = Some JNull
      \<and> map_of (rows df) 3 = None"
    using df val by (auto simp: cell_of_def)
  with df h day_payloads_dtos show ?thesis by blast
qed

text \<open>
  The claim as stated fails where the first record's key set has no \<^verbatim>\<open>id\<close>: the later
  record lacks the key \<^verbatim>\<open>calendarDate\<close> of \<open>K\<close> and the call fails.
\<close>

theorem dto_to_df_missing_key_counterexample:
  "dto_to_df [[(''dailySleepDTO'', JObj [(''calendarDate'', JStr ''2024-01-01'')])],
              [(''dailySleepDTO'', JObj [])]]
     = Inl (KeyError (JArr [JStr ''id'']))"
  by code_simp

subsection \<open>The date range and the bulk fetch\<close>


lemma DAY_pos: "0 < DAY" by (simp add: DAY_def)

lemma divmod_parts:
  fixes u D n :: int
  assumes "0 \<le> u" "u < D"
  shows "(n * D + u) div D = n" and "(n * D + u) mod D = u"
  using assms by (simp_all add: div_pos_pos_trivial mod_pos_pos_trivial)

lemma of_us_parts:
  assumes "1 \<le> n" "n \<le> MAXORDINAL" "0 \<le> u" "u < DAY"
  shows "of_us (n * DAY + u) = Inr \<lparr>ordinal = n, usec = u\<rparr>"
proof -
  show ?thesis
    unfolding of_us_def divmod_parts[OF assms(3,4)] using assms(1,2) by simp
qed

lemma dt_add_days:
  assumes "valid_datetime s" "1 \<le> ordinal s + n" "ordinal s + n \<le> MAXORDINAL"
  shows "dt_add s (timedelta_days n) = Inr \<lparr>ordinal = ordinal s + n, usec = usec s\<rparr>"
proof -
  have "to_us s + timedelta_days n = (ordinal s + n) * DAY + usec s"
    by (simp add: to_us_def timedelta_days_def algebra_simps)
  then show ?thesis
    using of_us_parts[OF assms(2,3), of "usec s"] assms(1)
    by (simp add: dt_add_def valid_datetime_def)
qed

lemma daterange_count:
  assumes "valid_datetime s" "valid_datetime e"
  shows "days (dt_diff \<lparr>ordinal = ordinal e + 1, usec = usec e\<rparr> s) = last_day s e - ordinal s + 1"
proof -
  have eq: "dt_diff \<lparr>ordinal = ordinal e + 1, usec = usec e\<rparr> s
      = (ordinal e - ordinal s + 1) * DAY + (usec e - usec s)"
    by (simp add: dt_diff_def to_us_def algebra_simps)
  show ?thesis
  proof (cases "usec s \<le> usec e")
    case True
    then have "0 \<le> usec e - usec s" "usec e - usec s < DAY"
      using assms by (auto simp: valid_datetime_def)
    then have "((ordinal e - ordinal s + 1) * DAY + (usec e - usec s)) div DAY
        = ordinal e - ordinal s + 1"
      by (rule divmod_parts)
    then show ?thesis using True by (simp only: eq days_def last_day_def if_True)
  next
    case False
    then have b: "0 \<le> usec e - usec s + DAY" "usec e - usec s + DAY < DAY"
      using assms by (auto simp: valid_datetime_def)
    have "(ordinal e - ordinal s + 1) * DAY + (usec e - usec s)
        = (ordinal e - ordinal s) * DAY + (usec e - usec s + DAY)"
      by (simp add: algebra_simps)
    moreover have "((ordinal e - ordinal s) * DAY + (usec e - usec s + DAY)) div DAY
        = ordinal e - ordinal s"
      using b by (rule divmod_parts)
    ultimately have "days (dt_diff \<lparr>ordinal = ordinal e + 1, usec = usec e\<rparr> s)
        = ordinal e - ordinal s"
      by (simp only: eq days_def)
    then show ?thesis using False by (simp add: last_day_def)
  qed
qed

lemma upto_as_map: "map (\<lambda>n. a + int n) [0 ..< nat (b - a + 1)] = [a..b]"
  by (rule nth_equalityI) auto

lemma daterange_ok:
  assumes "valid_datetime s" "valid_datetime e" "ordinal e < MAXORDINAL"
  shows "daterange s e =
    Inr (map (\<lambda>n. Inr \<lparr>ordinal = n, usec = usec s\<rparr>) [ordinal s .. last_day s e])"
proof -
  have e': "dt_add e (timedelta_days 1) = Inr \<lparr>ordinal = ordinal e + 1, usec = usec e\<rparr>"
    using dt_add_days[OF assms(2), of 1] assms(2,3) by (simp add: valid_datetime_def)
  have le: "last_day s e \<le> ordinal e" by (simp add: last_day_def)
  have item: "\<And>n. n \<in> set [0 ..< nat (last_day s e - ordinal s + 1)] \<Longrightarrow>
      dt_add s (timedelta_days (int n)) = Inr \<lparr>ordinal = ordinal s + int n, usec = usec s\<rparr>"
  proof -
    fix n assume "n \<in> set [0 ..< nat (last_day s e - ordinal s + 1)]"
    then have "ordinal s + int n \<le> last_day s e" by auto
    then have "ordinal s + int n \<le> MAXORDINAL" using le assms(3) by linarith
    moreover have "1 \<le> ordinal s + int n" using assms(1) by (simp add: valid_datetime_def)
    ultimately show "dt_add s (timedelta_days (int n))
        = Inr \<lparr>ordinal = ordinal s + int n, usec = usec s\<rparr>"
      using dt_add_days[OF assms(1)] by blast
  qed
  have "daterange s e = Inr (map (\<lambda>n. dt_add s (timedelta_days (int n)))
      [0 ..< nat (last_day s e - ordinal s + 1)])"
    by (simp add: daterange_def e' daterange_count[OF assms(1,2)])
  also have "map (\<lambda>n. dt_add s (timedelta_days (int n))) [0 ..< nat (last_day s e - ordinal s + 1)]
      = map (\<lambda>n. Inr \<lparr>ordinal = ordinal s + int n, usec = usec s\<rparr>)
          [0 ..< nat (last_day s e - ordinal s + 1)]"
    using item by (intro map_cong refl) 
  also have "\<dots> = map (\<lambda>n. Inr \<lparr>ordinal = n, usec = usec s\<rparr>)
      (map (\<lambda>n. ordinal s + int n) [0 ..< nat (last_day s e - ordinal s + 1)])"
    by (simp add: comp_def)
  finally show ?thesis by (simp only: upto_as_map)
qed

lemma strftime_ymd_day: "strftime_ymd \<lparr>ordinal = n, usec = u\<rparr> = strftime_ymd \<lparr>ordinal = n, usec = 0\<rparr>"
  by (simp add: strftime_ymd_def)

lemma bulk_loop_ok:
  assumes "session c"
    and "\<And>n. n \<in> set ns \<Longrightarrow> svc (day_url c buf n) = Inr (payload n)"
  shows "bulk_loop svc buf (map (\<lambda>n. Inr \<lparr>ordinal = n, usec = u\<rparr>) ns) data c =
    (Inr (data @ map payload ns), c\<lparr>requested := requested c @ map (day_url c buf) ns\<rparr>)"
  using assms
proof (induction ns arbitrary: data c)
  case Nil
  then show ?case by simp
next
  case (Cons n ns)
  let ?c' = "c\<lparr>requested := requested c @ [day_url c buf n]\<rparr>"
  have get: "get_sleep_data svc c (AsDatetime \<lparr>ordinal = n, usec = u\<rparr>) buf = (Inr (payload n), ?c')"
    using Cons.prems(1) Cons.prems(2)[of n]
    by (simp add: get_sleep_data_def day_url_def strftime_ymd_day[of n u])
  have url: "\<And>m. day_url ?c' buf m = day_url c buf m" by (simp add: day_url_def)
  have "bulk_loop svc buf (map (\<lambda>n. Inr \<lparr>ordinal = n, usec = u\<rparr>) ns) (data @ [payload n]) ?c' =
    (Inr ((data @ [payload n]) @ map payload ns),
     ?c'\<lparr>requested := requested ?c' @ map (day_url ?c' buf) ns\<rparr>)"
    using Cons.prems by (intro Cons.IH) (simp_all add: url)
  then show ?case by (simp add: get url)
qed

text \<open>
  Claim C3 (bulk-fetch range), as amended. With an open session, valid \<open>start\<close> and \<open>end\<close>
  whose end day is before 9999-12-31, and a service that answers the requests of the
  range, \<open>get_bulk_sleep_data\<close> requests exactly the days from the day of \<open>start\<close> to
  \<open>last_day start end\<close>, once each and in ascending order, and returns their payloads in
  that order. \<open>last_day\<close> is the day of \<open>end\<close> when the time of day of \<open>end\<close> is not
  earlier than that of \<open>start\<close> (so for two dates, and for two datetimes at the same time
  of day), and the day before otherwise.
\<close>

theorem get_bulk_sleep_data_range:
  assumes "session c"
    and "resolve fromisoformat start = Inr s"
    and "resolve fromisoformat end = Inr e"
    and "valid_datetime s" and "valid_datetime e"
    and "ordinal e < MAXORDINAL"
    and "\<And>n. ordinal s \<le> n \<Longrightarrow> n \<le> last_day s e \<Longrightarrow> svc (day_url c buf n) = Inr (payload n)"
  shows "get_bulk_sleep_data fromisoformat svc c start end buf =
    (Inr (map payload [ordinal s .. last_day s e]),
     c\<lparr>requested := requested c @ map (day_url c buf) [ordinal s .. last_day s e]\<rparr>)"
proof -
  have "get_bulk_sleep_data fromisoformat svc c start end buf =
      bulk_loop svc buf (map (\<lambda>n. Inr \<lparr>ordinal = n, usec = usec s\<rparr>) [ordinal s .. last_day s e]) [] c"
    using assms(1-3) by (simp add: get_bulk_sleep_data_def daterange_ok[OF assms(4-6)])
  also have "\<dots> = (Inr ([] @ map payload [ordinal s .. last_day s e]),
     c\<lparr>requested := requested c @ map (day_url c buf) [ordinal s .. last_day s e]\<rparr>)"
    using assms(1) assms(7) by (intro bulk_loop_ok) auto
  finally show ?thesis by simp
qed

text \<open>Three dates at midnight: three requests, in order.\<close>

theorem get_bulk_sleep_data_range_witness:
  "session client0
   \<and> resolve no_parser (AsDatetime (mk_date 2024 1 1)) = Inr (mk_date 2024 1 1)
   \<and> resolve no_parser (AsDatetime (mk_date 2024 1 3)) = Inr (mk_date 2024 1 3)
   \<and> valid_datetime (mk_date 2024 1 1) \<and> valid_datetime (mk_date 2024 1 3)
   \<and> ordinal (mk_date 2024 1 3) < MAXORDINAL
   \<and> get_bulk_sleep_data no_parser echo_service client0
        (AsDatetime (mk_date 2024 1 1)) (AsDatetime (mk_date 2024 1 3)) 60
      = (Inr [JStr ''u?date=2024-01-01&nonSleepBufferMinutes=60'',
              JStr ''u?date=2024-01-02&nonSleepBufferMinutes=60'',
              JStr ''u?date=2024-01-03&nonSleepBufferMinutes=60''],
         client0\<lparr>requested := [sleep_url ''u'' ''2024-01-01'' 60,
           sleep_url ''u'' ''2024-01-02'' 60, sleep_url ''u'' ''2024-01-03'' 60]\<rparr>)"
proof -
  let ?s = "mk_date 2024 1 1" and ?e = "mk_date 2024 1 3"
  have h: "session client0" "resolve no_parser (AsDatetime ?s) = Inr ?s"
    "resolve no_parser (AsDatetime ?e) = Inr ?e"
    by (simp_all add: client0_def resolve_def)
  have v: "valid_datetime ?s" "valid_datetime ?e" "ordinal ?e < MAXORDINAL"
    by code_simp+
  have days: "ordinal ?s = 738886" "last_day ?s ?e = 738888"
    by code_simp+
  have urls: "map (day_url client0 60) [738886 .. 738888] =
      [sleep_url ''u'' ''2024-01-01'' 60, sleep_url ''u'' ''2024-01-02'' 60,
       sleep_url ''u'' ''2024-01-03'' 60]"
    by code_simp
  have echo: "map (\<lambda>n. JStr (drop 81 (day_url client0 60 n))) [738886 .. 738888] =
      [JStr ''u?date=2024-01-01&nonSleepBufferMinutes=60'',
       JStr ''u?date=2024-01-02&nonSleepBufferMinutes=60'',
       JStr ''u?date=2024-01-03&nonSleepBufferMinutes=60'']"
    by code_simp
  have "get_bulk_sleep_data no_parser echo_service client0 (AsDatetime ?s) (AsDatetime ?e) 60 =
    (Inr (map (\<lambda>n. JStr (drop 81 (day_url client0 60 n))) [ordinal ?s .. last_day ?s ?e]),
     client0\<lparr>requested := requested client0 @ map (day_url client0 60) [ordinal ?s .. last_day ?s ?e]\<rparr>)"
    by (rule get_bulk_sleep_data_range[OF h v]) (simp add: echo_service_def)
  then have "get_bulk_sleep_data no_parser echo_service client0 (AsDatetime ?s) (AsDatetime ?e) 60
      = (Inr [JStr ''u?date=2024-01-01&nonSleepBufferMinutes=60'',
              JStr ''u?date=2024-01-02&nonSleepBufferMinutes=60'',
              JStr ''u?date=2024-01-03&nonSleepBufferMinutes=60''],
         client0\<lparr>requested := [sleep_url ''u'' ''2024-01-01'' 60,
           sleep_url ''u'' ''2024-01-02'' 60, sleep_url ''u'' ''2024-01-03'' 60]\<rparr>)"
    unfolding days urls echo by (simp add: client0_def)
  with h v show ?thesis by blast
qed

text \<open>
  The claim as stated fails in two places. From noon of 2024-01-01 to 06:00 of 2024-01-03
  (start before end) the day 2024-01-03 lies in the interval and is not requested; and a
  range that ends on 9999-12-31 raises \<^verbatim>\<open>OverflowError\<close> before any request.
\<close>

theorem get_bulk_sleep_data_range_counterexample:
  "get_bulk_sleep_data no_parser echo_service client0
      (AsDatetime (mk_datetime 2024 1 1 12 0 0 0)) (AsDatetime (mk_datetime 2024 1 3 6 0 0 0)) 60
   = (Inr [JStr ''u?date=2024-01-01&nonSleepBufferMinutes=60'',
           JStr ''u?date=2024-01-02&nonSleepBufferMinutes=60''],
      client0\<lparr>requested := [sleep_url ''u'' ''2024-01-01'' 60, sleep_url ''u'' ''2024-01-02'' 60]\<rparr>)
   \<and> get_bulk_sleep_data no_parser echo_service client0
      (AsDatetime (mk_date 9999 12 30)) (AsDatetime (mk_date 9999 12 31)) 60
   = (Inl OverflowError, client0)"
  by code_simp

subsection \<open>Powers of two and rounding\<close>

lemma pow2_powi: "pow2 e = 2 powi e"
  by (simp add: pow2_def power_int_def inverse_eq_divide power_one_over)

lemma pow2_pos [simp]: "0 < pow2 e"
  by (simp add: pow2_powi zero_less_power_int)

lemma pow2_nz [simp]: "pow2 e \<noteq> 0"
  using pow2_pos[of e] by linarith

lemma pow2_add: "pow2 (a + b) = pow2 a * pow2 b"
  by (simp add: pow2_powi power_int_add)

lemma pow2_mono: "a \<le> b \<Longrightarrow> pow2 a \<le> pow2 b"
  by (simp add: pow2_powi power_int_increasing)

lemma pow2_strict_mono: "a < b \<Longrightarrow> pow2 a < pow2 b"
  by (simp add: pow2_powi power_int_strict_increasing)

lemma pow2_less_cancel: "pow2 a < pow2 b \<Longrightarrow> a < b"
  using pow2_mono[of b a] by (cases "a < b") auto

lemma pow2_half: "pow2 (e - 1) = pow2 e / 2"
proof -
  have "pow2 e = pow2 (e - 1) * pow2 1" using pow2_add[of "e - 1" 1] by simp
  then show ?thesis by (simp add: pow2_def)
qed

lemma pow2_nat: "0 \<le> e \<Longrightarrow> pow2 e = 2 ^ nat e"
  by (simp add: pow2_def)

text \<open>The bounds of ilog2.\<close>

lemma ilog2_bounds:
  assumes "0 < q"
  shows "pow2 (ilog2 q) \<le> q" and "q < pow2 (ilog2 q + 1)"
proof -
  have "pow2 (ilog2 q) \<le> q \<and> q < pow2 (ilog2 q + 1)"
  proof (cases "1 \<le> q")
    case True
    let ?m = "\<lfloor>q\<rfloor>"
    have m: "1 \<le> ?m" using True by simp
    then have b: "2 ^ nat (bitlen ?m - 1) \<le> ?m" "?m < 2 ^ nat (bitlen ?m)"
      using bitlen_bounds[of ?m] by auto
    have b1: "1 \<le> bitlen ?m" using m by (simp add: bitlen_alt_def)
    have il: "ilog2 q = bitlen ?m - 1" using True by (simp add: ilog2_def)
    have "(of_int (2 ^ nat (bitlen ?m - 1)) :: rat) \<le> of_int ?m"
      using b(1) by (simp only: of_int_le_iff)
    also have "\<dots> \<le> q" by simp
    finally have lo: "pow2 (ilog2 q) \<le> q"
      using b1 by (simp add: il pow2_nat)
    have "?m + 1 \<le> 2 ^ nat (bitlen ?m)" using b(2) by simp
    then have "(of_int (?m + 1) :: rat) \<le> of_int (2 ^ nat (bitlen ?m))"
      by (simp only: of_int_le_iff)
    moreover have "q < of_int (?m + 1)" by linarith
    ultimately have "q < of_int (2 ^ nat (bitlen ?m))" by linarith
    then have hi: "q < pow2 (ilog2 q + 1)"
      using b1 by (simp add: il pow2_nat)
    from lo hi show ?thesis ..
  next
    case False
    let ?M = "\<lceil>1 / q\<rceil>"
    have r: "1 < 1 / q" using False assms by simp
    then have M: "2 \<le> ?M" by linarith
    then have b: "2 ^ nat (bitlen (?M - 1) - 1) \<le> ?M - 1" "?M - 1 < 2 ^ nat (bitlen (?M - 1))"
      using bitlen_bounds[of "?M - 1"] by auto
    have b1: "1 \<le> bitlen (?M - 1)" using M by (simp add: bitlen_alt_def)
    have il: "ilog2 q = - bitlen (?M - 1)" using False by (simp add: ilog2_def)
    have "?M \<le> 2 ^ nat (bitlen (?M - 1))" using b(2) by simp
    then have "(of_int ?M :: rat) \<le> of_int (2 ^ nat (bitlen (?M - 1)))"
      by (simp only: of_int_le_iff)
    moreover have "1 / q \<le> of_int ?M" by simp
    ultimately have "1 / q \<le> of_int (2 ^ nat (bitlen (?M - 1)))" by (rule order_trans[rotated])
    then have "1 / q \<le> 2 ^ nat (bitlen (?M - 1))" by simp
    then have "1 \<le> 2 ^ nat (bitlen (?M - 1)) * q"
      using assms by (simp add: field_simps)
    then have lo: "pow2 (ilog2 q) \<le> q"
      using b1 by (simp add: il pow2_def field_simps)
    have "(of_int (2 ^ nat (bitlen (?M - 1) - 1)) :: rat) \<le> of_int (?M - 1)"
      using b(1) by (simp only: of_int_le_iff)
    moreover have "(of_int (?M - 1) :: rat) < 1 / q" by linarith
    ultimately have "(of_int (2 ^ nat (bitlen (?M - 1) - 1)) :: rat) < 1 / q" by (rule le_less_trans)
    then have "2 ^ nat (bitlen (?M - 1) - 1) < 1 / q" by simp
    then have "2 ^ nat (bitlen (?M - 1) - 1) * q < 1"
      using assms by (simp add: field_simps)
    moreover have "pow2 (ilog2 q + 1) = 1 / 2 ^ nat (bitlen (?M - 1) - 1)"
    proof (cases "bitlen (?M - 1) = 1")
      case True
      then show ?thesis by (simp add: il pow2_def)
    next
      case False
      then have "ilog2 q + 1 < 0" using b1 il by linarith
      moreover have "nat (- (ilog2 q + 1)) = nat (bitlen (?M - 1) - 1)" by (simp add: il)
      ultimately show ?thesis by (simp add: pow2_def)
    qed
    ultimately have hi: "q < pow2 (ilog2 q + 1)"
      using assms by (simp only: less_divide_eq zero_less_power zero_less_numeral if_True mult.commute)
    from lo hi show ?thesis ..
  qed
  then show "pow2 (ilog2 q) \<le> q" and "q < pow2 (ilog2 q + 1)" by auto
qed

lemma ilog2_less: "0 < q \<Longrightarrow> q < pow2 k \<Longrightarrow> ilog2 q < k"
  using ilog2_bounds(1)[of q] pow2_less_cancel[of "ilog2 q" k] by linarith

lemma ilog2_ge: "0 < q \<Longrightarrow> pow2 k \<le> q \<Longrightarrow> k \<le> ilog2 q"
  using ilog2_bounds(2)[of q] pow2_less_cancel[of k "ilog2 q + 1"] by linarith

text \<open>Rounding to the nearest integer.\<close>

lemma round_half_even_err: "\<bar>of_int (round_half_even x) - x\<bar> \<le> 1 / 2"
proof -
  define f where "f = \<lfloor>x\<rfloor>"
  have b: "of_int f \<le> x" "x < of_int f + 1" unfolding f_def by linarith+
  consider "x - of_int f < 1 / 2" | "1 / 2 < x - of_int f" | "x - of_int f = 1 / 2"
    by linarith
  then show ?thesis
  proof cases
    case 1
    then have "round_half_even x = f" by (simp add: round_half_even_def Let_def f_def)
    then show ?thesis using 1 b by simp
  next
    case 2
    then have "round_half_even x = f + 1" by (simp add: round_half_even_def Let_def f_def)
    then show ?thesis using 2 b by simp
  next
    case 3
    then have "round_half_even x = f \<or> round_half_even x = f + 1"
      by (simp add: round_half_even_def Let_def f_def)
    then show ?thesis using 3 b by auto
  qed
qed

lemma round_half_even_near:
  assumes "\<bar>x - of_int n\<bar> < 1 / 2"
  shows "round_half_even x = n"
proof -
  have "\<bar>(of_int (round_half_even x) :: rat) - of_int n\<bar> < 1"
    using round_half_even_err[of x] assms by linarith
  then have "\<bar>(of_int (round_half_even x - n) :: rat)\<bar> < 1" by simp
  then have "\<bar>round_half_even x - n\<bar> < 1"
    by (metis of_int_abs of_int_less_1_iff)
  then show ?thesis by linarith
qed

lemma round_half_even_of_int [simp]: "round_half_even (of_int n) = n"
  by (rule round_half_even_near) simp

text \<open>The rounding error of fl.\<close>

lemma fl_err:
  assumes "q \<noteq> 0"
  shows "\<bar>fl q - q\<bar> \<le> pow2 (max (ilog2 \<bar>q\<bar> - 52) (- 1074) - 1)"
proof -
  let ?e = "max (ilog2 \<bar>q\<bar> - 52) (- 1074)"
  have "fl q - q = (of_int (round_half_even (q / pow2 ?e)) - q / pow2 ?e) * pow2 ?e"
    using assms by (simp add: fl_def Let_def algebra_simps)
  then have "\<bar>fl q - q\<bar> = \<bar>of_int (round_half_even (q / pow2 ?e)) - q / pow2 ?e\<bar> * \<bar>pow2 ?e\<bar>"
    by (simp only: abs_mult)
  also have "\<bar>pow2 ?e\<bar> = pow2 ?e"
    using pow2_pos[of ?e] by (simp only: abs_of_pos)
  also have "\<bar>of_int (round_half_even (q / pow2 ?e)) - q / pow2 ?e\<bar> * pow2 ?e \<le> (1 / 2) * pow2 ?e"
    by (intro mult_right_mono round_half_even_err less_imp_le pow2_pos)
  finally show ?thesis by (simp add: pow2_half)
qed

lemma fl_err_bound:
  assumes "\<bar>q\<bar> < pow2 k" and "- 1021 \<le> k"
  shows "\<bar>fl q - q\<bar> \<le> pow2 (k - 54)"
proof (cases "q = 0")
  case True
  then show ?thesis by (simp add: fl_def less_imp_le)
next
  case False
  then have "ilog2 \<bar>q\<bar> < k" using assms(1) by (intro ilog2_less) auto
  then have "max (ilog2 \<bar>q\<bar> - 52) (- 1074) - 1 \<le> k - 54" using assms(2) by simp
  then show ?thesis using fl_err[OF False] pow2_mono order_trans by blast
qed

text \<open>Rounding keeps the sign of a number in the normal range.\<close>

lemma fl_sign:
  assumes "pow2 (- 1022) \<le> \<bar>q\<bar>"
  shows "\<bar>fl q - q\<bar> < \<bar>q\<bar>"
proof -
  have "0 < \<bar>q\<bar>" using assms pow2_pos[of "- 1022"] by (rule less_le_trans[rotated])
  then have q: "q \<noteq> 0" by simp
  then have pos: "0 < \<bar>q\<bar>" by simp
  have "- 1022 \<le> ilog2 \<bar>q\<bar>" using ilog2_ge[OF pos assms] .
  then have e: "max (ilog2 \<bar>q\<bar> - 52) (- 1074) = ilog2 \<bar>q\<bar> - 52" by simp
  have "\<bar>fl q - q\<bar> \<le> pow2 (ilog2 \<bar>q\<bar> - 53)" using fl_err[OF q] by (simp add: e)
  also have "\<dots> < pow2 (ilog2 \<bar>q\<bar>)" by (rule pow2_strict_mono) simp
  also have "\<dots> \<le> \<bar>q\<bar>" using ilog2_bounds(1)[OF pos] .
  finally show ?thesis .
qed

lemma fl_pos: "pow2 (- 1022) \<le> q \<Longrightarrow> 0 < fl q"
  using fl_sign[of q] pow2_pos[of "- 1022"] by (auto simp: abs_if split: if_splits)

lemma fl_neg: "q \<le> - pow2 (- 1022) \<Longrightarrow> fl q < 0"
  using fl_sign[of q] pow2_pos[of "- 1022"] by (auto simp: abs_if split: if_splits)

subsection \<open>The relative-time functions\<close>

lemma div_le_iff_less_mult:
  fixes t D M :: int
  assumes "0 < D"
  shows "t div D \<le> M \<longleftrightarrow> t < (M + 1) * D"
proof
  assume le: "t div D \<le> M"
  have "t = D * (t div D) + t mod D" by simp
  moreover have "t mod D < D" using assms by simp
  moreover have "D * (t div D) \<le> D * M" using le assms by (simp add: mult_left_mono)
  ultimately have "t < D * M + D" by linarith
  then show "t < (M + 1) * D" by (simp add: algebra_simps)
next
  assume lt: "t < (M + 1) * D"
  show "t div D \<le> M"
  proof (rule ccontr)
    assume "\<not> t div D \<le> M"
    then have "M + 1 \<le> t div D" by simp
    then have "D * (M + 1) \<le> D * (t div D)" using assms by (simp add: mult_left_mono)
    moreover have "D * (t div D) \<le> t" by (metis assms mult.commute div_mult_mod_eq add_increasing2 pos_mod_sign order_refl less_imp_le)
    ultimately show False using lt by (simp add: algebra_simps)
  qed
qed

lemma of_us_representable:
  "of_us t = (if representable t then Inr \<lparr>ordinal = t div DAY, usec = t mod DAY\<rparr> else Inl OverflowError)"
proof -
  have "1 \<le> t div DAY \<longleftrightarrow> DAY \<le> t"
    by (simp add: int_one_le_iff_zero_less pos_imp_zdiv_pos_iff DAY_pos)
  moreover have "t div DAY \<le> MAXORDINAL \<longleftrightarrow> t < (MAXORDINAL + 1) * DAY"
    using DAY_pos by (rule div_le_iff_less_mult)
  ultimately show ?thesis by (simp add: of_us_def representable_def)
qed

lemma of_us_to_us: "valid_datetime dt \<Longrightarrow> of_us (to_us dt) = Inr dt"
  using of_us_parts[of "ordinal dt" "usec dt"] by (simp add: valid_datetime_def to_us_def)

lemma datetime_to_12hr_usec: "datetime_to_12hr t = clock_12hr (usec t)"
  by (simp add: datetime_to_12hr_def clock_12hr_def hour_def minute_def)

lemma to_us_midnight: "to_us (midnight d) = ordinal d * DAY"
  by (simp add: to_us_def midnight_def)

text \<open>What format_relative_seconds computes, by cases.\<close>

lemma format_relative_seconds_eval:
  "format_relative_seconds s d =
     (if isnull_number s then Inr ''''
      else case timedelta_seconds s of
        Inl e \<Rightarrow> Inl e
      | Inr td \<Rightarrow>
          if representable (ordinal d * DAY - td)
          then Inr (clock_12hr ((- td) mod DAY)) else Inl OverflowError)"
proof -
  have m: "\<And>td. (ordinal d * DAY - td) mod DAY = (- td) mod DAY"
    by (metis add.commute mod_mult_self3 uminus_add_conv_diff)
  show ?thesis
    by (simp add: format_relative_seconds_def seconds_to_time_def dt_sub_def to_us_midnight
        of_us_representable datetime_to_12hr_usec m split: sum.splits)
qed

lemma pow2_small: "pow2 (- 1022) \<le> 1 / 1000000"
proof -
  have "pow2 (- 1022) \<le> pow2 (- 20)" by (rule pow2_mono) simp
  also have "\<dots> \<le> 1 / 1000000" by (simp add: pow2_def)
  finally show ?thesis .
qed

lemma total_seconds_sign:
  "0 < n \<Longrightarrow> 0 < total_seconds n" "n < 0 \<Longrightarrow> total_seconds n < 0"
proof -
  assume "0 < n"
  then have "1 \<le> (of_int n :: rat)" by simp
  then have "(1 / 1000000 :: rat) \<le> of_int n / 1000000" by simp
  then have "pow2 (- 1022) \<le> of_int n / 1000000" using pow2_small by linarith
  then show "0 < total_seconds n" unfolding total_seconds_def by (rule fl_pos)
next
  assume "n < 0"
  then have "n \<le> - 1" by linarith
  then have "(of_int n :: rat) \<le> of_int (- 1)" by (simp only: of_int_le_iff)
  then have "(of_int n :: rat) \<le> - 1" by simp
  then have "of_int n / 1000000 \<le> (- (1 / 1000000) :: rat)" by simp
  then have "of_int n / 1000000 \<le> - pow2 (- 1022)" using pow2_small by linarith
  then show "total_seconds n < 0" unfolding total_seconds_def by (rule fl_neg)
qed

lemma frac_part_bound: "\<bar>frac_part x\<bar> < 1"
proof (cases "0 \<le> x")
  case True
  have "of_int \<lfloor>x\<rfloor> \<le> x" "x < of_int \<lfloor>x\<rfloor> + 1" by linarith+
  then have "\<bar>x - of_int \<lfloor>x\<rfloor>\<bar> < 1" by linarith
  then show ?thesis using True by (simp add: frac_part_def trunc_def)
next
  case False
  have "x \<le> of_int \<lceil>x\<rceil>" "of_int \<lceil>x\<rceil> < x + 1" by linarith+
  then have "\<bar>x - of_int \<lceil>x\<rceil>\<bar> < 1" by linarith
  then show ?thesis using False by (simp add: frac_part_def trunc_def)
qed

text \<open>The round trip through a float, for an interval shorter than 2^33 seconds.\<close>

lemma timedelta_seconds_total_seconds:
  assumes "\<bar>n\<bar> < 2 ^ 33 * 1000000"
  shows "timedelta_seconds (PyFloat (- total_seconds n)) = Inr (- n)"
proof -
  define y :: rat where "y = of_int n / 1000000"
  define x where "x = fl y"
  define s where "s = - x"
  define p where "p = fl (1000000 * frac_part s)"
  have "(of_int \<bar>n\<bar> :: rat) < of_int (2 ^ 33 * 1000000)"
    using assms by (simp only: of_int_less_iff)
  then have "\<bar>(of_int n :: rat)\<bar> < 2 ^ 33 * 1000000"
    by simp
  then have ylt: "\<bar>y\<bar> < pow2 33" by (simp add: y_def pow2_def)
  have ex: "\<bar>x - y\<bar> \<le> pow2 (- 21)"
    using fl_err_bound[OF ylt] by (simp add: x_def)
  have "\<bar>1000000 * frac_part s\<bar> < 1000000" using frac_part_bound[of s] by simp
  also have "\<dots> < pow2 20" by (simp add: pow2_def)
  finally have ep: "\<bar>p - 1000000 * frac_part s\<bar> \<le> pow2 (- 34)"
    using fl_err_bound[of "1000000 * frac_part s" 20] by (simp add: p_def)
  have id: "p - of_int (- n - trunc s * 1000000) = (p - 1000000 * frac_part s) - 1000000 * (x - y)"
    by (simp add: frac_part_def s_def y_def algebra_simps)
  have "\<bar>p - of_int (- n - trunc s * 1000000)\<bar> \<le> pow2 (- 34) + 1000000 * pow2 (- 21)"
    unfolding id using ep ex by (simp add: abs_if split: if_splits)
  also have "\<dots> < 1 / 2" by (simp add: pow2_def)
  finally have "round_half_even p = - n - trunc s * 1000000"
    by (rule round_half_even_near)
  then have us: "trunc s * 1000000 + round_half_even p = - n" by simp
  have "\<bar>n\<bar> < 8589934592000000" using assms by simp
  then have "- 8589934592000000 < n" "n < 8589934592000000" by linarith+
  then have "- 999999999 * DAY \<le> - n \<and> - n < 1000000000 * DAY"
    unfolding DAY_def by simp
  then show ?thesis
    using us by (simp add: timedelta_seconds_def check_timedelta_def total_seconds_def
        y_def x_def s_def p_def)
qed

text \<open>A float close to a whole number of microseconds converts to that number.\<close>

lemma timedelta_seconds_near:
  assumes "\<bar>m\<bar> < 2 ^ 33 * 1000000"
    and "\<bar>x - of_int m / 1000000\<bar> \<le> pow2 (- 21)"
  shows "timedelta_seconds (PyFloat x) = Inr m"
proof -
  define p where "p = fl (1000000 * frac_part x)"
  have "\<bar>1000000 * frac_part x\<bar> < 1000000" using frac_part_bound[of x] by simp
  also have "\<dots> < pow2 20" by (simp add: pow2_def)
  finally have ep: "\<bar>p - 1000000 * frac_part x\<bar> \<le> pow2 (- 34)"
    using fl_err_bound[of "1000000 * frac_part x" 20] by (simp add: p_def)
  have id: "p - of_int (m - trunc x * 1000000)
      = (p - 1000000 * frac_part x) + 1000000 * (x - of_int m / 1000000)"
    by (simp add: frac_part_def algebra_simps)
  have "\<bar>p - of_int (m - trunc x * 1000000)\<bar> \<le> pow2 (- 34) + 1000000 * pow2 (- 21)"
    unfolding id using ep assms(2) by (simp add: abs_if split: if_splits)
  also have "\<dots> < 1 / 2" by (simp add: pow2_def)
  finally have "round_half_even p = m - trunc x * 1000000"
    by (rule round_half_even_near)
  then have us: "trunc x * 1000000 + round_half_even p = m" by simp
  have "\<bar>m\<bar> < 8589934592000000" using assms(1) by simp
  then have "- 8589934592000000 < m" "m < 8589934592000000" by linarith+
  then have "- 999999999 * DAY \<le> m \<and> m < 1000000000 * DAY"
    unfolding DAY_def by simp
  then show ?thesis
    using us by (simp add: timedelta_seconds_def check_timedelta_def p_def)
qed

lemma timedelta_seconds_plus_day:
  assumes "\<bar>m\<bar> < 2 ^ 31 * 1000000"
    and "\<bar>x - of_int m / 1000000\<bar> \<le> pow2 (- 23)"
  shows "timedelta_seconds (PyFloat x) = Inr m"
    and "timedelta_seconds (plus_day (PyFloat x)) = Inr (m + 86400000000)"
proof -
  have m: "\<bar>m\<bar> < 2147483648000000" using assms(1) by simp
  have p23: "pow2 (- 23) = 1 / 8388608" and p21: "pow2 (- 21) = 1 / 2097152"
    and p22: "pow2 (- 22) = 1 / 4194304" and p32: "pow2 32 = 4294967296"
    by (simp_all add: pow2_def)
  have "\<bar>m\<bar> < 2 ^ 33 * 1000000" using m by simp
  moreover have "\<bar>x - of_int m / 1000000\<bar> \<le> pow2 (- 21)"
    using assms(2) by (simp add: p23 p21)
  ultimately show "timedelta_seconds (PyFloat x) = Inr m" by (rule timedelta_seconds_near)
  have "(of_int \<bar>m\<bar> :: rat) < of_int 2147483648000000" using m by (simp only: of_int_less_iff)
  then have mq: "\<bar>(of_int m :: rat) / 1000000\<bar> < 2147483648" by simp
  have xb: "\<bar>x + 86400\<bar> < pow2 32"
    using assms(2) mq by (simp add: p23 p32 abs_if split: if_splits)
  have e1: "\<bar>fl (x + 86400) - (x + 86400)\<bar> \<le> pow2 (- 22)"
    using fl_err_bound[OF xb] by simp
  define y :: rat where "y = of_int m / 1000000"
  define A where "A = fl (x + 86400)"
  have "\<bar>A - (x + 86400)\<bar> \<le> 1 / 4194304" using e1 by (simp add: A_def p22)
  moreover have "\<bar>x - y\<bar> \<le> 1 / 8388608" using assms(2) by (simp add: y_def p23)
  ultimately have "\<bar>A - (y + 86400)\<bar> \<le> 1 / 2097152" by linarith
  moreover have "of_int (m + 86400000000) / (1000000 :: rat) = y + 86400" by (simp add: y_def)
  ultimately have near: "\<bar>fl (x + 86400) - of_int (m + 86400000000) / 1000000\<bar> \<le> pow2 (- 21)"
    by (simp only: A_def p21)
  have "\<bar>m + 86400000000\<bar> < 2 ^ 33 * 1000000" using m by simp
  then have "timedelta_seconds (PyFloat (fl (x + 86400))) = Inr (m + 86400000000)"
    using near by (rule timedelta_seconds_near)
  then show "timedelta_seconds (plus_day (PyFloat x)) = Inr (m + 86400000000)"
    by (simp add: plus_day_def)
qed

lemma make_relative_near:
  assumes "\<bar>dt_diff dt (midnight d0)\<bar> < 2 ^ 31 * 1000000"
  shows "\<bar>make_relative dt d0 - of_int (- dt_diff dt (midnight d0)) / 1000000\<bar> \<le> pow2 (- 23)"
proof -
  let ?n = "dt_diff dt (midnight d0)"
  have "(of_int \<bar>?n\<bar> :: rat) < of_int (2 ^ 31 * 1000000)"
    using assms by (simp only: of_int_less_iff)
  then have "\<bar>(of_int ?n :: rat) / 1000000\<bar> < pow2 31" by (simp add: pow2_def)
  then have "\<bar>fl (of_int ?n / 1000000) - of_int ?n / 1000000\<bar> \<le> pow2 (- 23)"
    using fl_err_bound[of "of_int ?n / 1000000" 31] by simp
  then show ?thesis by (simp add: make_relative_def total_seconds_def abs_if split: if_splits)
qed

lemma format_float_period:
  assumes "\<bar>m\<bar> < 2 ^ 31 * 1000000"
    and "\<bar>x - of_int m / 1000000\<bar> \<le> pow2 (- 23)"
    and "format_relative_seconds (PyFloat x) d = Inr a"
    and "format_relative_seconds (plus_day (PyFloat x)) d = Inr c"
  shows "a = c"
proof -
  have md: "(- m - 86400000000) mod DAY = (- m) mod DAY"
  proof -
    have "- m - 86400000000 = - m + (- 1) * DAY" by (simp add: DAY_def)
    then show ?thesis by (simp only: mod_mult_self1)
  qed
  have n1: "\<not> isnull_number (PyFloat x)" "\<not> isnull_number (plus_day (PyFloat x))"
    by (simp_all add: isnull_number_def plus_day_def)
  show ?thesis
    using assms(3,4)
    unfolding format_relative_seconds_eval[of "PyFloat x" d]
      format_relative_seconds_eval[of "plus_day (PyFloat x)" d]
      timedelta_seconds_plus_day[OF assms(1,2)]
    by (simp add: n1 md split: if_splits)
qed

lemma format_make_relative:
  assumes "valid_datetime dt" and "\<bar>dt_diff dt (midnight d)\<bar> < 2 ^ 33 * 1000000"
  shows "format_relative_seconds (PyFloat (make_relative dt d)) d = Inr (datetime_to_12hr dt)"
proof -
  let ?n = "dt_diff dt (midnight d)"
  have td: "timedelta_seconds (PyFloat (make_relative dt d)) = Inr (- ?n)"
    unfolding make_relative_def using assms(2) by (rule timedelta_seconds_total_seconds)
  have "to_us (midnight d) - (- ?n) = to_us dt" by (simp add: dt_diff_def)
  then have "seconds_to_time (PyFloat (make_relative dt d)) d = Inr dt"
    using of_us_to_us[OF assms(1)] by (simp add: seconds_to_time_def td dt_sub_def)
  then show ?thesis by (simp add: format_relative_seconds_def isnull_number_def)
qed

subsection \<open>Formatting whole seconds, and the layout\<close>

lemma format_int_eval:
  assumes "- 999999999 * DAY \<le> n * 1000000" "n * 1000000 < 1000000000 * DAY"
  shows "format_relative_seconds (PyInt n) d =
     (if representable (ordinal d * DAY - n * 1000000)
      then Inr (clock_12hr ((- (n * 1000000)) mod DAY)) else Inl OverflowError)"
  using assms
  by (simp add: format_relative_seconds_eval isnull_number_def timedelta_seconds_def
      check_timedelta_def)

lemma format_int_ok:
  assumes "valid_datetime d" "0 \<le> k" "\<bar>n\<bar> \<le> 86400 * k" "k < ordinal d" "ordinal d + k \<le> MAXORDINAL"
  shows "format_relative_seconds (PyInt n) d = Inr (clock_12hr ((- (n * 1000000)) mod DAY))"
proof -
  have n: "- (k * DAY) \<le> n * 1000000" "n * 1000000 \<le> k * DAY"
    using assms(3) by (simp_all add: DAY_def abs_le_iff)
  have k: "k < MAXORDINAL" using assms(4,5) assms(1) by (simp add: valid_datetime_def)
  have "k * DAY \<le> 3652059 * DAY" using k by (simp add: MAXORDINAL_def DAY_def)
  then have r: "- 999999999 * DAY \<le> n * 1000000" "n * 1000000 < 1000000000 * DAY"
    using n by (simp_all add: DAY_def)
  have "(ordinal d - k) * DAY \<le> ordinal d * DAY - n * 1000000"
    using n(2) by (simp add: algebra_simps)
  moreover have "1 * DAY \<le> (ordinal d - k) * DAY"
    using assms(4) by (intro mult_right_mono) (simp_all add: DAY_def)
  moreover have "ordinal d * DAY - n * 1000000 \<le> (ordinal d + k) * DAY"
    using n(1) by (simp add: algebra_simps)
  moreover have "(ordinal d + k) * DAY \<le> MAXORDINAL * DAY"
    using assms(5) by (intro mult_right_mono) (simp_all add: DAY_def)
  ultimately have "representable (ordinal d * DAY - n * 1000000)"
    by (simp add: representable_def algebra_simps DAY_def)
  then show ?thesis by (simp add: format_int_eval[OF r])
qed

lemma time_range_eval: "time_range = map (\<lambda>k. 86400 - 3600 * int k) [0 ..< 48]"
  by (simp add: time_range_def py_range_def Let_def)

lemma delta_range_eval: "delta_range = map timedelta_hours [0 .. 15]"
  by code_simp

lemma time_range_bounds: "t \<in> set time_range \<Longrightarrow> \<bar>t\<bar> \<le> 86400 * 1"
  unfolding time_range_eval by auto

lemma tick_labels_emap:
  assumes "valid_datetime today" "2 \<le> ordinal today"
  shows "emap (\<lambda>time. ebind (format_relative_seconds (PyInt time) today) (\<lambda>s. Inr (s @ ''  '')))
      time_range = Inr (map (\<lambda>t. clock_12hr ((- (t * 1000000)) mod DAY) @ ''  '') time_range)"
proof (rule emap_total)
  fix t assume t: "t \<in> set time_range"
  then have b: "- 82800 \<le> t" "t \<le> 86400" unfolding time_range_eval by auto
  have r: "- 999999999 * DAY \<le> t * 1000000" "t * 1000000 < 1000000000 * DAY"
    using b by (simp_all add: DAY_def)
  have "representable (ordinal today * DAY - t * 1000000)"
    using b assms by (simp add: representable_def valid_datetime_def DAY_def MAXORDINAL_def)
  then show "ebind (format_relative_seconds (PyInt t) today) (\<lambda>s. Inr (s @ ''  ''))
    = Inr (clock_12hr ((- (t * 1000000)) mod DAY) @ ''  '')"
    by (simp add: format_int_eval[OF r])
qed

lemma update_layout_eval:
  assumes "valid_datetime today" "2 \<le> ordinal today"
  shows "update_layout today =
    Inr \<lparr>title = ''Davis' Sleep Schedule'', hovermode = ''x unified'',
         yaxis = \<lparr>tickmode = ''array'', tickvals = time_range,
                   ticktext = map (\<lambda>t. clock_12hr ((- (t * 1000000)) mod DAY) @ ''  '') time_range\<rparr>,
         yaxis2 = \<lparr>tickmode = ''array'', tickvals = delta_range,
                    ticktext = map (\<lambda>n. format_timedelta (Some n)) delta_range\<rparr>,
         template = ''plotly_dark''\<rparr>"
  by (simp add: update_layout_def tick_labels_emap[OF assms])

lemma tick_labels: "map (\<lambda>t. clock_12hr ((- (t * 1000000)) mod DAY) @ ''  '') time_range
    = day_labels @ day_labels"
  by code_simp

lemma duration_labels: "map (\<lambda>n. format_timedelta (Some n)) delta_range =
  [''00:00'', ''01:00'', ''02:00'', ''03:00'', ''04:00'', ''05:00'', ''06:00'', ''07:00'',
   ''08:00'', ''09:00'', ''10:00'', ''11:00'', ''12:00'', ''13:00'', ''14:00'', ''15:00'']"
  by code_simp

text \<open>
  Claim C2 (sign convention). For every datetime \<open>dt\<close> and date \<open>d\<close>: when \<open>dt\<close> is after
  midnight of \<open>d\<close> the float \<open>make_relative dt d\<close> is negative, and when \<open>dt\<close> is before
  midnight of \<open>d\<close> it is positive. Moreover \<open>make_relative\<close> of 2024-01-02T07:15:00 and
  2024-01-02 is the float -26100.0, and \<open>format_relative_seconds\<close> of -26100.0 and
  2024-01-02 is \<^verbatim>\<open>07:15 AM\<close>.
\<close>

theorem make_relative_sign:
  "(before (midnight d) dt \<longrightarrow> make_relative dt d < 0)
   \<and> (before dt (midnight d) \<longrightarrow> 0 < make_relative dt d)
   \<and> make_relative (mk_datetime 2024 1 2 7 15 0 0) (mk_date 2024 1 2) = - 26100
   \<and> format_relative_seconds (PyFloat (- 26100)) (mk_date 2024 1 2) = Inr ''07:15 AM''"
proof -
  have 1: "before (midnight d) dt \<longrightarrow> make_relative dt d < 0"
    using total_seconds_sign(1)[of "dt_diff dt (midnight d)"]
    by (simp add: before_def make_relative_def dt_diff_def)
  have 2: "before dt (midnight d) \<longrightarrow> 0 < make_relative dt d"
    using total_seconds_sign(2)[of "dt_diff dt (midnight d)"]
    by (simp add: before_def make_relative_def dt_diff_def)
  have 3: "make_relative (mk_datetime 2024 1 2 7 15 0 0) (mk_date 2024 1 2) = - 26100"
    by code_simp
  have 4: "format_relative_seconds (PyFloat (- 26100)) (mk_date 2024 1 2) = Inr ''07:15 AM''"
    by code_simp
  from 1 2 3 4 show ?thesis by blast
qed

text \<open>
  07:15 on 2024-01-02 is after midnight of that day and 23:00 on 2024-01-01 before it.
\<close>

theorem make_relative_sign_witness:
  "before (midnight (mk_date 2024 1 2)) (mk_datetime 2024 1 2 7 15 0 0)
   \<and> make_relative (mk_datetime 2024 1 2 7 15 0 0) (mk_date 2024 1 2) < 0
   \<and> before (mk_datetime 2024 1 1 23 0 0 0) (midnight (mk_date 2024 1 2))
   \<and> 0 < make_relative (mk_datetime 2024 1 1 23 0 0 0) (mk_date 2024 1 2)
   \<and> make_relative (mk_datetime 2024 1 1 23 0 0 0) (mk_date 2024 1 2) = 3600"
proof -
  have a: "before (midnight (mk_date 2024 1 2)) (mk_datetime 2024 1 2 7 15 0 0)"
    by code_simp
  have b: "before (mk_datetime 2024 1 1 23 0 0 0) (midnight (mk_date 2024 1 2))"
    by code_simp
  have c: "make_relative (mk_datetime 2024 1 1 23 0 0 0) (mk_date 2024 1 2) = 3600"
    by code_simp
  show ?thesis
    using make_relative_sign[of "mk_date 2024 1 2" "mk_datetime 2024 1 2 7 15 0 0"]
      make_relative_sign[of "mk_date 2024 1 2" "mk_datetime 2024 1 1 23 0 0 0"] a b c
    by blast
qed

text \<open>
  Claim C6 (null-safety of the formatters). For every date \<open>d\<close>,
  \<open>format_relative_seconds\<close> of \<^verbatim>\<open>None\<close> and \<open>d\<close> returns the empty string, and
  \<open>format_timedelta\<close> of \<^verbatim>\<open>None\<close> returns the empty string; neither raises.
\<close>

theorem format_null_safe:
  "format_relative_seconds PyNone d = Inr '''' \<and> format_timedelta None = ''''"
  by (simp add: format_relative_seconds_def isnull_number_def format_timedelta_def)

text \<open>
  Claim C1 (round trip), as amended. For every valid datetime \<open>dt\<close> and every date \<open>d\<close>
  whose midnight is less than \<open>2 ^ 33\<close> seconds (about 272 years) away from \<open>dt\<close>,
  \<open>seconds_to_time\<close> of the float \<open>make_relative dt d\<close> and \<open>d\<close> returns \<open>dt\<close>, to the
  microsecond.
\<close>

theorem seconds_to_time_make_relative:
  assumes "valid_datetime dt"
    and "\<bar>dt_diff dt (midnight d)\<bar> < 2 ^ 33 * 1000000"
  shows "seconds_to_time (PyFloat (make_relative dt d)) d = Inr dt"
proof -
  let ?n = "dt_diff dt (midnight d)"
  have td: "timedelta_seconds (PyFloat (make_relative dt d)) = Inr (- ?n)"
    unfolding make_relative_def using assms(2) by (rule timedelta_seconds_total_seconds)
  have "to_us (midnight d) - (- ?n) = to_us dt" by (simp add: dt_diff_def)
  then show ?thesis
    using of_us_to_us[OF assms(1)] by (simp add: seconds_to_time_def td dt_sub_def)
qed

text \<open>
  One microsecond past 07:15: the float is not the exact number of seconds, and the round
  trip still returns the datetime.
\<close>

theorem seconds_to_time_make_relative_witness:
  "valid_datetime (mk_datetime 2024 1 2 7 15 0 1)
   \<and> \<bar>dt_diff (mk_datetime 2024 1 2 7 15 0 1) (midnight (mk_date 2024 1 2))\<bar> < 2 ^ 33 * 1000000
   \<and> is_double (make_relative (mk_datetime 2024 1 2 7 15 0 1) (mk_date 2024 1 2))
   \<and> make_relative (mk_datetime 2024 1 2 7 15 0 1) (mk_date 2024 1 2) \<noteq> - (26100000001 / 1000000)
   \<and> seconds_to_time (PyFloat (make_relative (mk_datetime 2024 1 2 7 15 0 1) (mk_date 2024 1 2)))
        (mk_date 2024 1 2) = Inr (mk_datetime 2024 1 2 7 15 0 1)"
proof -
  have v: "valid_datetime (mk_datetime 2024 1 2 7 15 0 1)" by code_simp
  have b: "\<bar>dt_diff (mk_datetime 2024 1 2 7 15 0 1) (midnight (mk_date 2024 1 2))\<bar> < 2 ^ 33 * 1000000"
    by code_simp
  have d: "is_double (make_relative (mk_datetime 2024 1 2 7 15 0 1) (mk_date 2024 1 2))"
    by code_simp
  have e: "make_relative (mk_datetime 2024 1 2 7 15 0 1) (mk_date 2024 1 2) \<noteq> - (26100000001 / 1000000)"
    by code_simp
  show ?thesis using seconds_to_time_make_relative[OF v b] v b d e by blast
qed

text \<open>
  The claim as stated fails for a date far from the datetime. With the date 1700-01-01 the
  float has lost the last microsecond of 2024-01-02T07:15:00.000001 and the round trip
  returns 07:15:00.000002; with the date 0001-01-01 and the last microsecond of the year
  9999 the float is rounded up to a whole day and \<open>seconds_to_time\<close> raises
  \<^verbatim>\<open>OverflowError\<close>.
\<close>

theorem seconds_to_time_make_relative_counterexample:
  "valid_datetime (mk_datetime 2024 1 2 7 15 0 1) \<and> valid_datetime (mk_date 1700 1 1)
   \<and> seconds_to_time (PyFloat (make_relative (mk_datetime 2024 1 2 7 15 0 1) (mk_date 1700 1 1)))
        (mk_date 1700 1 1) = Inr (mk_datetime 2024 1 2 7 15 0 2)
   \<and> mk_datetime 2024 1 2 7 15 0 2 \<noteq> mk_datetime 2024 1 2 7 15 0 1
   \<and> valid_datetime (mk_datetime 9999 12 31 23 59 59 999999) \<and> valid_datetime (mk_date 1 1 1)
   \<and> make_relative (mk_datetime 9999 12 31 23 59 59 999999) (mk_date 1 1 1) = - 315537897600
   \<and> seconds_to_time (PyFloat (make_relative (mk_datetime 9999 12 31 23 59 59 999999) (mk_date 1 1 1)))
        (mk_date 1 1 1) = Inl OverflowError"
  by code_simp

text \<open>
  Claim C9 (date independence and period of the formatter), as amended. For every number
  of seconds \<open>s\<close>, integer or float, and dates \<open>d\<close> and \<open>d'\<close>: when neither call raises,
  \<open>format_relative_seconds s d\<close> and \<open>format_relative_seconds s d'\<close> are the same string.
  When neither call raises, \<open>format_relative_seconds\<close> gives the same string for
  \<open>s + 86400\<close> as for \<open>s\<close>, for every integer \<open>s\<close> and for every float \<open>s\<close> below
  \<open>2 ^ 31\<close> seconds in magnitude that lies within \<open>2 ^ -23\<close> seconds of a whole number of
  microseconds; these floats include every whole number of seconds and every float that
  \<open>make_relative\<close> returns for a datetime less than \<open>2 ^ 31\<close> seconds (68 years) from the
  midnight. The call does not raise for an integer \<open>n\<close> of at most \<open>k\<close> days in magnitude
  and a valid date \<open>d\<close> at least \<open>k\<close> days inside the years 1 to 9999, nor for the float
  \<open>make_relative dt d\<close> of a valid datetime less than \<open>2 ^ 33\<close> seconds from midnight
  of \<open>d\<close>, where it gives the clock time of \<open>dt\<close>.
\<close>

theorem format_relative_seconds_period:
  "(format_relative_seconds s d = Inr a \<longrightarrow> format_relative_seconds s d' = Inr b \<longrightarrow> a = b)
   \<and> (format_relative_seconds (PyInt n) d = Inr a
        \<longrightarrow> format_relative_seconds (plus_day (PyInt n)) d = Inr c \<longrightarrow> a = c)
   \<and> (\<bar>m\<bar> < 2 ^ 31 * 1000000 \<longrightarrow> \<bar>x - of_int m / 1000000\<bar> \<le> pow2 (- 23)
        \<longrightarrow> format_relative_seconds (PyFloat x) d = Inr a
        \<longrightarrow> format_relative_seconds (plus_day (PyFloat x)) d = Inr c \<longrightarrow> a = c)
   \<and> (\<bar>w\<bar> < 2 ^ 31
        \<longrightarrow> format_relative_seconds (PyFloat (of_int w)) d = Inr a
        \<longrightarrow> format_relative_seconds (plus_day (PyFloat (of_int w))) d = Inr c \<longrightarrow> a = c)
   \<and> (\<bar>dt_diff dt (midnight d0)\<bar> < 2 ^ 31 * 1000000
        \<longrightarrow> format_relative_seconds (PyFloat (make_relative dt d0)) d = Inr a
        \<longrightarrow> format_relative_seconds (plus_day (PyFloat (make_relative dt d0))) d = Inr c
        \<longrightarrow> a = c)
   \<and> (valid_datetime d \<longrightarrow> 0 \<le> k \<longrightarrow> \<bar>n\<bar> \<le> 86400 * k \<longrightarrow> k < ordinal d
        \<longrightarrow> ordinal d + k \<le> MAXORDINAL
        \<longrightarrow> format_relative_seconds (PyInt n) d
            = Inr (clock_12hr ((- (n * 1000000)) mod DAY)))
   \<and> (valid_datetime dt \<longrightarrow> \<bar>dt_diff dt (midnight d)\<bar> < 2 ^ 33 * 1000000
        \<longrightarrow> format_relative_seconds (PyFloat (make_relative dt d)) d
            = Inr (datetime_to_12hr dt))"
proof -
  have 1: "format_relative_seconds s d = Inr a \<longrightarrow> format_relative_seconds s d' = Inr b \<longrightarrow> a = b"
    unfolding format_relative_seconds_eval[of s d] format_relative_seconds_eval[of s d']
    by (auto split: sum.splits if_splits)
  have m: "(- (n * 1000000) - 86400000000) mod DAY = (- (n * 1000000)) mod DAY"
  proof -
    have "- (n * 1000000) - 86400000000 = - (n * 1000000) + (- 1) * DAY"
      by (simp add: DAY_def)
    then show ?thesis by (simp only: mod_mult_self1)
  qed
  have 2: "format_relative_seconds (PyInt n) d = Inr a
        \<longrightarrow> format_relative_seconds (plus_day (PyInt n)) d = Inr c \<longrightarrow> a = c"
    unfolding format_relative_seconds_eval[of "PyInt n" d]
      format_relative_seconds_eval[of "plus_day (PyInt n)" d]
    by (auto simp: plus_day_def timedelta_seconds_def check_timedelta_def isnull_number_def m
        split: sum.splits if_splits)
  have 3: "\<bar>m\<bar> < 2 ^ 31 * 1000000 \<longrightarrow> \<bar>x - of_int m / 1000000\<bar> \<le> pow2 (- 23)
        \<longrightarrow> format_relative_seconds (PyFloat x) d = Inr a
        \<longrightarrow> format_relative_seconds (plus_day (PyFloat x)) d = Inr c \<longrightarrow> a = c"
    using format_float_period[of m x d a c] by blast
  have 4: "\<bar>w\<bar> < 2 ^ 31
        \<longrightarrow> format_relative_seconds (PyFloat (of_int w)) d = Inr a
        \<longrightarrow> format_relative_seconds (plus_day (PyFloat (of_int w))) d = Inr c \<longrightarrow> a = c"
  proof (intro impI)
    assume w: "\<bar>w\<bar> < 2 ^ 31"
      and f: "format_relative_seconds (PyFloat (of_int w)) d = Inr a"
        "format_relative_seconds (plus_day (PyFloat (of_int w))) d = Inr c"
    have "\<bar>w * 1000000\<bar> < 2 ^ 31 * 1000000" using w by (simp add: abs_mult)
    moreover have "\<bar>(of_int w :: rat) - of_int (w * 1000000) / 1000000\<bar> \<le> pow2 (- 23)"
      by (simp add: less_imp_le)
    ultimately show "a = c" using f by (rule format_float_period)
  qed
  have 5: "\<bar>dt_diff dt (midnight d0)\<bar> < 2 ^ 31 * 1000000
        \<longrightarrow> format_relative_seconds (PyFloat (make_relative dt d0)) d = Inr a
        \<longrightarrow> format_relative_seconds (plus_day (PyFloat (make_relative dt d0))) d = Inr c
        \<longrightarrow> a = c"
  proof (intro impI)
    assume b: "\<bar>dt_diff dt (midnight d0)\<bar> < 2 ^ 31 * 1000000"
      and f: "format_relative_seconds (PyFloat (make_relative dt d0)) d = Inr a"
        "format_relative_seconds (plus_day (PyFloat (make_relative dt d0))) d = Inr c"
    have "\<bar>- dt_diff dt (midnight d0)\<bar> < 2 ^ 31 * 1000000" using b by simp
    then show "a = c" using make_relative_near[OF b] f by (rule format_float_period)
  qed
  have 6: "valid_datetime d \<longrightarrow> 0 \<le> k \<longrightarrow> \<bar>n\<bar> \<le> 86400 * k \<longrightarrow> k < ordinal d
        \<longrightarrow> ordinal d + k \<le> MAXORDINAL
        \<longrightarrow> format_relative_seconds (PyInt n) d
            = Inr (clock_12hr ((- (n * 1000000)) mod DAY))"
    using format_int_ok[of d k n] by blast
  have 7: "valid_datetime dt \<longrightarrow> \<bar>dt_diff dt (midnight d)\<bar> < 2 ^ 33 * 1000000
        \<longrightarrow> format_relative_seconds (PyFloat (make_relative dt d)) d
            = Inr (datetime_to_12hr dt)"
    using format_make_relative[of dt d] by blast
  from 1 2 3 4 5 6 7 show ?thesis by blast
qed

text \<open>
  45000 seconds and a day more, on two dates: all calls give \<^verbatim>\<open>11:30 AM\<close>. The float that
  \<open>make_relative\<close> returns for one microsecond past 07:15, and the float sum of it and
  86400, both give \<^verbatim>\<open>07:15 AM\<close>.
\<close>

theorem format_relative_seconds_period_witness:
  "format_relative_seconds (PyInt 45000) (mk_date 2024 1 2) = Inr ''11:30 AM''
   \<and> format_relative_seconds (PyInt 45000) (mk_date 1999 12 31) = Inr ''11:30 AM''
   \<and> format_relative_seconds (plus_day (PyInt 45000)) (mk_date 2024 1 2) = Inr ''11:30 AM''
   \<and> \<bar>dt_diff (mk_datetime 2024 1 2 7 15 0 1) (midnight (mk_date 2024 1 2))\<bar> < 2 ^ 31 * 1000000
   \<and> format_relative_seconds
        (PyFloat (make_relative (mk_datetime 2024 1 2 7 15 0 1) (mk_date 2024 1 2)))
        (mk_date 2024 1 2) = Inr ''07:15 AM''
   \<and> format_relative_seconds
        (plus_day (PyFloat (make_relative (mk_datetime 2024 1 2 7 15 0 1) (mk_date 2024 1 2))))
        (mk_date 2024 1 2) = Inr ''07:15 AM''
   \<and> plus_day (PyFloat (make_relative (mk_datetime 2024 1 2 7 15 0 1) (mk_date 2024 1 2)))
        \<noteq> PyFloat (make_relative (mk_datetime 2024 1 2 7 15 0 1) (mk_date 2024 1 2))
   \<and> valid_datetime (mk_date 2024 1 2) \<and> (0::int) \<le> 2 \<and> \<bar>45000 :: int\<bar> \<le> 86400 * 2
   \<and> 2 < ordinal (mk_date 2024 1 2) \<and> ordinal (mk_date 2024 1 2) + 2 \<le> MAXORDINAL
   \<and> clock_12hr ((- (45000 * 1000000)) mod DAY) = ''11:30 AM''"
proof -
  let ?x = "make_relative (mk_datetime 2024 1 2 7 15 0 1) (mk_date 2024 1 2)"
  have e: "format_relative_seconds (PyInt 45000) (mk_date 2024 1 2) = Inr ''11:30 AM''"
    "format_relative_seconds (PyInt 45000) (mk_date 1999 12 31) = Inr ''11:30 AM''"
    "format_relative_seconds (plus_day (PyInt 45000)) (mk_date 2024 1 2) = Inr ''11:30 AM''"
    by code_simp+
  have f: "\<bar>dt_diff (mk_datetime 2024 1 2 7 15 0 1) (midnight (mk_date 2024 1 2))\<bar> < 2 ^ 31 * 1000000"
    "format_relative_seconds (PyFloat ?x) (mk_date 2024 1 2) = Inr ''07:15 AM''"
    "format_relative_seconds (plus_day (PyFloat ?x)) (mk_date 2024 1 2) = Inr ''07:15 AM''"
    "plus_day (PyFloat ?x) \<noteq> PyFloat ?x"
    by code_simp+
  have h: "valid_datetime (mk_date 2024 1 2)" "(0::int) \<le> 2" "\<bar>45000 :: int\<bar> \<le> 86400 * 2"
    "2 < ordinal (mk_date 2024 1 2)" "ordinal (mk_date 2024 1 2) + 2 \<le> MAXORDINAL"
    by code_simp+
  have "format_relative_seconds (PyInt 45000) (mk_date 2024 1 2)
      = Inr (clock_12hr ((- (45000 * 1000000)) mod DAY))"
    using format_relative_seconds_period[of "PyInt 45000" "mk_date 2024 1 2" "''11:30 AM''"
        "mk_date 1999 12 31" "''11:30 AM''" 45000 "''11:30 AM''" _ _ _ _ _ 2] h
    by blast
  then have "clock_12hr ((- (45000 * 1000000)) mod DAY) = ''11:30 AM''"
    using e(1) by simp
  with e f h show ?thesis by blast
qed

text \<open>
  The claim as stated fails in two places. The float 45000.0000005 is formatted as
  \<^verbatim>\<open>11:30 AM\<close>, and the float sum of it and 86400 as \<^verbatim>\<open>11:29 AM\<close>: the float lies
  half a microsecond from a whole number of microseconds and the sum is rounded up across
  the half. And one second is \<^verbatim>\<open>11:59 PM\<close> on 2024-01-02, while on 0001-01-01 the call
  raises \<^verbatim>\<open>OverflowError\<close>.
\<close>

theorem format_relative_seconds_period_counterexample:
  "is_double (45000 + 68719 / 2 ^ 37)
   \<and> format_relative_seconds (PyFloat (45000 + 68719 / 2 ^ 37)) (mk_date 2024 1 2)
       = Inr ''11:30 AM''
   \<and> format_relative_seconds (plus_day (PyFloat (45000 + 68719 / 2 ^ 37))) (mk_date 2024 1 2)
       = Inr ''11:29 AM''
   \<and> format_relative_seconds (PyInt 1) (mk_date 2024 1 2) = Inr ''11:59 PM''
   \<and> format_relative_seconds (PyInt 1) (mk_date 1 1 1) = Inl OverflowError"
  by code_simp

text \<open>
  Claim C8 (axis ticks), as amended. For a valid current date after 0001-01-01, the y-axis
  of chart row 1 has a tick at every hour from +86400 seconds down to -82800 seconds (48
  ticks; -86400 is not one of them), each labelled by \<open>format_relative_seconds\<close> followed
  by two spaces, which reads \<^verbatim>\<open>12:00 AM\<close>, \<^verbatim>\<open>01:00 AM\<close> up to \<^verbatim>\<open>11:00 PM\<close>, twice; the y-axis
  of chart row 2 has a tick at each whole hour from 0 to 15 hours, labelled by
  \<open>format_timedelta\<close>, which reads \<^verbatim>\<open>00:00\<close> up to \<^verbatim>\<open>15:00\<close>.
\<close>

theorem update_layout_ticks:
  assumes "valid_datetime today" and "2 \<le> ordinal today"
  shows "\<exists>L. update_layout today = Inr L
    \<and> tickvals (yaxis L) = map (\<lambda>k. 86400 - 3600 * int k) [0 ..< 48]
    \<and> emap (\<lambda>t. ebind (format_relative_seconds (PyInt t) today) (\<lambda>s. Inr (s @ ''  '')))
         (tickvals (yaxis L)) = Inr (ticktext (yaxis L))
    \<and> ticktext (yaxis L) = day_labels @ day_labels
    \<and> tickvals (yaxis2 L) = map timedelta_hours [0 .. 15]
    \<and> ticktext (yaxis2 L) = map (\<lambda>n. format_timedelta (Some n)) (tickvals (yaxis2 L))
    \<and> ticktext (yaxis2 L) =
        [''00:00'', ''01:00'', ''02:00'', ''03:00'', ''04:00'', ''05:00'', ''06:00'', ''07:00'',
         ''08:00'', ''09:00'', ''10:00'', ''11:00'', ''12:00'', ''13:00'', ''14:00'', ''15:00'']"
proof -
  let ?L = "\<lparr>title = ''Davis' Sleep Schedule'', hovermode = ''x unified'',
         yaxis = \<lparr>tickmode = ''array'', tickvals = time_range,
                   ticktext = map (\<lambda>t. clock_12hr ((- (t * 1000000)) mod DAY) @ ''  '') time_range\<rparr>,
         yaxis2 = \<lparr>tickmode = ''array'', tickvals = delta_range,
                    ticktext = map (\<lambda>n. format_timedelta (Some n)) delta_range\<rparr>,
         template = ''plotly_dark''\<rparr>"
  have L: "update_layout today = Inr ?L" using assms by (rule update_layout_eval)
  have lab: "emap (\<lambda>t. ebind (format_relative_seconds (PyInt t) today) (\<lambda>s. Inr (s @ ''  '')))
      time_range = Inr (map (\<lambda>t. clock_12hr ((- (t * 1000000)) mod DAY) @ ''  '') time_range)"
    using assms by (rule tick_labels_emap)
  show ?thesis
    by (rule exI[of _ ?L])
      (simp add: L lab time_range_eval[symmetric] tick_labels delta_range_eval[symmetric]
        duration_labels del: upt_Suc)
qed

theorem update_layout_ticks_witness:
  "valid_datetime (mk_datetime 2024 1 2 10 11 12 13) \<and> 2 \<le> ordinal (mk_datetime 2024 1 2 10 11 12 13)
   \<and> (\<exists>L. update_layout (mk_datetime 2024 1 2 10 11 12 13) = Inr L
       \<and> tickvals (yaxis L) = map (\<lambda>k. 86400 - 3600 * int k) [0 ..< 48]
       \<and> ticktext (yaxis L) = day_labels @ day_labels
       \<and> tickvals (yaxis2 L) = map timedelta_hours [0 .. 15])"
proof -
  have h: "valid_datetime (mk_datetime 2024 1 2 10 11 12 13)"
    "2 \<le> ordinal (mk_datetime 2024 1 2 10 11 12 13)"
    by code_simp+
  show ?thesis using update_layout_ticks[OF h] h by blast
qed

text \<open>
  The claim as stated fails: the ticks end at -82800 seconds, so -86400 has no tick. On
  0001-01-01 the first label is a time of the day before, and the call raises.
\<close>

theorem update_layout_ticks_counterexample:
  "(\<exists>L. update_layout (mk_datetime 2024 1 2 10 11 12 13) = Inr L
       \<and> - 86400 \<notin> set (tickvals (yaxis L))
       \<and> last (tickvals (yaxis L)) = - 82800 \<and> length (tickvals (yaxis L)) = 48)
   \<and> update_layout (mk_date 1 1 1) = Inl OverflowError"
proof -
  have h: "valid_datetime (mk_datetime 2024 1 2 10 11 12 13)"
    "2 \<le> ordinal (mk_datetime 2024 1 2 10 11 12 13)"
    by code_simp+
  have t: "- 86400 \<notin> set time_range \<and> last time_range = - 82800 \<and> length time_range = 48"
    by code_simp
  have o: "update_layout (mk_date 1 1 1) = Inl OverflowError"
    by code_simp
  show ?thesis using update_layout_eval[OF h] t o by simp
qed

subsection \<open>The normaliser\<close>

lemma column_length: "column df name = Inr c \<Longrightarrow> length c = length (rows df)"
  by (auto simp: column_def split: option.splits)

lemma convert_length:
  "ebind (column df name) (emap f) = Inr ys \<Longrightarrow> length ys = length (rows df)"
proof -
  assume a: "ebind (column df name) (emap f) = Inr ys"
  then obtain c where c: "column df name = Inr c" "emap f c = Inr ys"
    by (cases "column df name") auto
  show ?thesis using column_length[OF c(1)] emap_length[OF c(2)] by simp
qed

lemma zip4_fst:
  assumes "length B = length A" "length C = length A" "length D = length A" "length E = length A"
  shows "map (\<lambda>x. fst (fst (fst (fst x)))) (zip (zip (zip (zip A B) C) D) E) = A"
  using assms by (intro nth_equalityI) auto

lemma mk_timed_row_cells:
  "(label (mk_timed_row x), cells (mk_timed_row x)) = fst (fst (fst (fst x)))"
  by (cases x) (auto simp: mk_timed_row_def)

lemma dropna_rows:
  "dropna name df = Inr df1 \<Longrightarrow>
   \<exists>j. index_of name (columns df) = Some j \<and> columns df1 = columns df
     \<and> rows df1 = filter (\<lambda>(i, r). \<not> isnull (r ! j)) (rows df)"
  by (auto simp: dropna_def split: option.splits)

lemma clean_rows_ok:
  assumes "clean_rows conv df = Inr rs"
  shows "\<exists>j. index_of ''id'' (columns df) = Some j
    \<and> set (map (\<lambda>r. (label r, cells r)) rs) = {x \<in> set (rows df). \<not> isnull (snd x ! j)}
    \<and> length rs = length (filter (\<lambda>(i, r). \<not> isnull (r ! j)) (rows df))
    \<and> sorted (map date_key rs)"
proof -
  obtain df1 where d: "dropna ''id'' df = Inr df1"
    using assms by (cases "dropna ''id'' df") (auto simp: clean_rows_def)
  obtain dates where c1: "ebind (column df1 ''calendarDate'') (emap (to_datetime_ymd conv)) = Inr dates"
    using assms d
    by (cases "ebind (column df1 ''calendarDate'') (emap (to_datetime_ymd conv))")
      (auto simp: clean_rows_def)
  obtain beds where c2: "ebind (column df1 ''sleepStartTimestampLocal'') (emap (to_datetime_ms conv)) = Inr beds"
    using assms d c1
    by (cases "ebind (column df1 ''sleepStartTimestampLocal'') (emap (to_datetime_ms conv))")
      (auto simp: clean_rows_def)
  obtain wakes where c3: "ebind (column df1 ''sleepEndTimestampLocal'') (emap (to_datetime_ms conv)) = Inr wakes"
    using assms d c1 c2
    by (cases "ebind (column df1 ''sleepEndTimestampLocal'') (emap (to_datetime_ms conv))")
      (auto simp: clean_rows_def)
  obtain sleeps where c4: "ebind (column df1 ''sleepTimeSeconds'') (emap (to_timedelta_s conv)) = Inr sleeps"
    using assms d c1 c2 c3
    by (cases "ebind (column df1 ''sleepTimeSeconds'') (emap (to_timedelta_s conv))")
      (auto simp: clean_rows_def)
  let ?z = "zip (zip (zip (zip (rows df1) dates) beds) wakes) sleeps"
  have rs: "rs = sort_values_date (map mk_timed_row ?z)"
    using assms by (simp add: clean_rows_def d c1 c2 c3 c4)
  obtain j where j: "index_of ''id'' (columns df) = Some j"
    "rows df1 = filter (\<lambda>(i, r). \<not> isnull (r ! j)) (rows df)"
    using dropna_rows[OF d] by blast
  have len: "length dates = length (rows df1)" "length beds = length (rows df1)"
    "length wakes = length (rows df1)" "length sleeps = length (rows df1)"
    using c1 c2 c3 c4 by (auto dest: convert_length)
  have "map (\<lambda>r. (label r, cells r)) (map mk_timed_row ?z) = rows df1"
    using zip4_fst[OF len] by (simp add: comp_def mk_timed_row_cells)
  then have "set (map (\<lambda>r. (label r, cells r)) (map mk_timed_row ?z)) = set (rows df1)"
    by (simp only:)
  moreover have "set (map (\<lambda>r. (label r, cells r)) rs)
      = set (map (\<lambda>r. (label r, cells r)) (map mk_timed_row ?z))"
    by (simp add: rs sort_values_date_def image_image)
  moreover have "set (rows df1) = {x \<in> set (rows df). \<not> isnull (snd x ! j)}"
    by (auto simp: j(2))
  ultimately have s: "set (map (\<lambda>r. (label r, cells r)) rs)
      = {x \<in> set (rows df). \<not> isnull (snd x ! j)}"
    by (simp only:)
  have l: "length rs = length (filter (\<lambda>(i, r). \<not> isnull (r ! j)) (rows df))"
    using len by (simp add: rs sort_values_date_def j(2)[symmetric])
  have "sorted (map date_key rs)"
    unfolding rs sort_values_date_def by (rule sorted_sort_key)
  with j(1) s l show ?thesis by blast
qed

lemma timed_part_id [simp]: "timed_part (r :: timed_row) = r"
  by (simp add: timed_part_def)

lemma timed_part_relative [simp]:
  "timed_part (mk_relative_row ((((r, rb), rw), fb), fw)) = r"
  "r_bedtime (mk_relative_row ((((r, rb), rw), fb), fw)) = rb"
  "r_wakeup (mk_relative_row ((((r, rb), rw), fb), fw)) = rw"
  by (simp_all add: mk_relative_row_def timed_part_def timed_row.defs relative_row.defs)

lemma timed_part_sleep [simp]:
  "timed_part (mk_sleep_row ((r, mb), mw)) = timed_part r"
  "r_bedtime (mk_sleep_row ((r, mb), mw)) = r_bedtime r"
  "r_wakeup (mk_sleep_row ((r, mb), mw)) = r_wakeup r"
  "rm_bedtime (mk_sleep_row ((r, mb), mw)) = mb"
  "rm_wakeup (mk_sleep_row ((r, mb), mw)) = mw"
  by (simp_all add: mk_sleep_row_def timed_part_def relative_row.defs sleep_row.defs)

lemma relative_rows_ok:
  assumes "relative_rows rs = Inr rel"
  shows "map timed_part rel = rs"
proof -
  obtain rbs where 1: "emap (\<lambda>r. row_relative (bedtime r) (date r)) rs = Inr rbs"
    using assms by (cases "emap (\<lambda>r. row_relative (bedtime r) (date r)) rs")
      (auto simp: relative_rows_def)
  obtain rws where 2: "emap (\<lambda>r. row_relative (wakeup r) (date r)) rs = Inr rws"
    using assms 1 by (cases "emap (\<lambda>r. row_relative (wakeup r) (date r)) rs")
      (auto simp: relative_rows_def)
  obtain fbs where 3: "emap (\<lambda>(r, s). row_format s (date r)) (zip rs rbs) = Inr fbs"
    using assms 1 2 by (cases "emap (\<lambda>(r, s). row_format s (date r)) (zip rs rbs)")
      (auto simp: relative_rows_def)
  obtain fws where 4: "emap (\<lambda>(r, s). row_format s (date r)) (zip rs rws) = Inr fws"
    using assms 1 2 3 by (cases "emap (\<lambda>(r, s). row_format s (date r)) (zip rs rws)")
      (auto simp: relative_rows_def)
  have rel: "rel = map mk_relative_row (zip (zip (zip (zip rs rbs) rws) fbs) fws)"
    using assms by (simp add: relative_rows_def 1 2 3 4)
  have len: "length rbs = length rs" "length rws = length rs"
    using emap_length[OF 1] emap_length[OF 2] by simp_all
  then have len': "length fbs = length rs" "length fws = length rs"
    using emap_length[OF 3] emap_length[OF 4] by simp_all
  have "map timed_part rel
      = map (\<lambda>x. fst (fst (fst (fst x)))) (zip (zip (zip (zip rs rbs) rws) fbs) fws)"
    unfolding rel by (auto simp: comp_def)
  then show ?thesis using zip4_fst[OF len len'] by simp
qed

lemma rolling_rows_ok:
  assumes "\<And>xs. length (rolling_mean 7 xs) = length xs"
  shows "map timed_part (rolling_rows rolling_mean rel) = map timed_part rel"
    and "map r_bedtime (rolling_rows rolling_mean rel) = map r_bedtime rel"
    and "map r_wakeup (rolling_rows rolling_mean rel) = map r_wakeup rel"
    and "map rm_bedtime (rolling_rows rolling_mean rel) = rolling_mean 7 (map r_bedtime rel)"
    and "map rm_wakeup (rolling_rows rolling_mean rel) = rolling_mean 7 (map r_wakeup rel)"
proof -
  let ?b = "rolling_mean 7 (map r_bedtime rel)" and ?w = "rolling_mean 7 (map r_wakeup rel)"
  have l: "length ?b = length rel" "length ?w = length rel" using assms by simp_all
  have n: "\<And>i. i < length rel \<Longrightarrow>
      rolling_rows rolling_mean rel ! i = mk_sleep_row ((rel ! i, ?b ! i), ?w ! i)"
    using l by (simp add: rolling_rows_def)
  have len: "length (rolling_rows rolling_mean rel) = length rel"
    using l by (simp add: rolling_rows_def)
  show "map timed_part (rolling_rows rolling_mean rel) = map timed_part rel"
    by (rule nth_equalityI) (simp_all add: len n)
  show "map r_bedtime (rolling_rows rolling_mean rel) = map r_bedtime rel"
    by (rule nth_equalityI) (simp_all add: len n)
  show "map r_wakeup (rolling_rows rolling_mean rel) = map r_wakeup rel"
    by (rule nth_equalityI) (simp_all add: len n)
  show "map rm_bedtime (rolling_rows rolling_mean rel) = ?b"
    by (rule nth_equalityI) (simp_all add: len n l)
  show "map rm_wakeup (rolling_rows rolling_mean rel) = ?w"
    by (rule nth_equalityI) (simp_all add: len n l)
qed

text \<open>
  Claim C7 (post-cleaning invariant). For every input table, every conversion of the
  cells and every rolling kernel that returns one value per row: when \<open>clean_data\<close>
  returns, the rows \<open>rs\<close> left after \<^verbatim>\<open>dropna\<close> and \<^verbatim>\<open>sort_values\<close> all have a non-null
  \<^verbatim>\<open>id\<close> and are sorted non-decreasing by date (a null date counts as the latest); the
  returned table has these rows in this order; and its rolling-mean columns are the kernel
  applied to its relative-seconds columns, so they are computed from the sorted rows.
\<close>

theorem clean_data_invariant:
  assumes "clean_data conv rolling_mean df = Inr t"
    and "\<And>xs. length (rolling_mean 7 xs) = length xs"
  shows "\<exists>j rs. index_of ''id'' (columns df) = Some j
     \<and> clean_rows conv df = Inr rs
     \<and> (\<forall>r \<in> set rs. \<not> isnull (cells r ! j))
     \<and> sorted (map date_key rs)
     \<and> map timed_part t = rs
     \<and> map rm_bedtime t = rolling_mean 7 (map r_bedtime t)
     \<and> map rm_wakeup t = rolling_mean 7 (map r_wakeup t)"
proof -
  obtain rs where rs: "clean_rows conv df = Inr rs"
    using assms(1) by (cases "clean_rows conv df") (auto simp: clean_data_def)
  obtain rel where rel: "relative_rows rs = Inr rel"
    using assms(1) rs by (cases "relative_rows rs") (auto simp: clean_data_def)
  have t: "t = rolling_rows rolling_mean rel"
    using assms(1) by (simp add: clean_data_def rs rel)
  obtain j where j: "index_of ''id'' (columns df) = Some j"
    "set (map (\<lambda>r. (label r, cells r)) rs) = {x \<in> set (rows df). \<not> isnull (snd x ! j)}"
    "sorted (map date_key rs)"
    using clean_rows_ok[OF rs] by blast
  have ids: "\<forall>r \<in> set rs. \<not> isnull (cells r ! j)"
  proof
    fix r assume "r \<in> set rs"
    then have "(label r, cells r) \<in> set (map (\<lambda>r. (label r, cells r)) rs)" by auto
    then show "\<not> isnull (cells r ! j)" unfolding j(2) by simp
  qed
  note rr = rolling_rows_ok[where rolling_mean = rolling_mean and rel = rel, OF assms(2)]
  have part: "map timed_part t = rs"
    unfolding t rr(1) by (rule relative_rows_ok[OF rel])
  have rb: "map rm_bedtime t = rolling_mean 7 (map r_bedtime t)"
    unfolding t rr(2,4) ..
  have rw: "map rm_wakeup t = rolling_mean 7 (map r_wakeup t)"
    unfolding t rr(3,5) ..
  from j(1) rs ids j(3) part rb rw show ?thesis by blast
qed

lemma rounded_rolling_mean_length: "length (rounded_rolling_mean w xs) = length xs"
  by (simp add: rounded_rolling_mean_def)

lemma clean_table_run: "clean_data simple_conversions rounded_rolling_mean raw_table = Inr clean_table"
  by code_simp

text \<open>
  The run on the example table: the row without \<^verbatim>\<open>id\<close> is gone and 2024-01-02 comes
  before 2024-01-03.
\<close>

theorem clean_data_invariant_witness:
  "clean_data simple_conversions rounded_rolling_mean raw_table = Inr clean_table
   \<and> index_of ''id'' (columns raw_table) = Some 0
   \<and> (\<exists>rs. clean_rows simple_conversions raw_table = Inr rs
        \<and> (\<forall>r \<in> set rs. \<not> isnull (cells r ! 0))
        \<and> sorted (map date_key rs)
        \<and> map timed_part clean_table = rs)
   \<and> map label clean_table = [2, 0]
   \<and> map date_key (map timed_part clean_table) = [(0, 738887 * DAY), (0, 738888 * DAY)]"
proof -
  have i: "index_of ''id'' (columns raw_table) = Some 0" by (simp add: raw_table_def)
  have l: "map label clean_table = [2, 0]" by (simp add: clean_table_def)
  have k: "map date_key (map timed_part clean_table) = [(0, 738887 * DAY), (0, 738888 * DAY)]"
    by code_simp
  obtain j rs where "index_of ''id'' (columns raw_table) = Some j"
    "clean_rows simple_conversions raw_table = Inr rs"
    "\<forall>r \<in> set rs. \<not> isnull (cells r ! j)" "sorted (map date_key rs)"
    "map timed_part clean_table = rs"
    using clean_data_invariant[where rolling_mean = rounded_rolling_mean,
        OF clean_table_run rounded_rolling_mean_length] by blast
  with i l k clean_table_run show ?thesis by auto
qed


subsection \<open>The rolling mean\<close>














end
